theory Spec2Isabelle
  imports Main "HOL-Library.Char_ord" "HOL-Library.List_Lexorder"
begin

section \<open>The read-only Twitter scraper (\<^verbatim>\<open>src/plugins/twitter-readonly/scraper.ts\<close>)\<close>

text \<open>
  The class \<^verbatim>\<open>TwitterScraper\<close> is embedded with explicit state passing. One record holds
  the fields of the instance together with the collaborators it talks to (the knowledge
  store of the runtime and the Twitter client), so that every method is a function from
  a state to an outcome and a new state. An exception is a value \<open>Inl e\<close>; the state
  reached when it was thrown is returned beside it, because a \<^verbatim>\<open>catch\<close> block continues
  from there. Calls of \<^verbatim>\<open>elizaLogger\<close> change nothing the scraper reads and are left out.
  A method runs to its end before another starts: the timers of \<^verbatim>\<open>start\<close> are recorded, and
  two passes are never interleaved.
\<close>

subsection \<open>JavaScript values\<close>

text \<open>
  A value of type \<^verbatim>\<open>string | undefined\<close> is a \<open>string option\<close>. Strings are compared as
  JavaScript compares them, lexicographically by code unit (the order of
  \<open>List_Lexorder\<close> over \<open>Char_ord\<close>); a comparison with \<^verbatim>\<open>undefined\<close> is false.
\<close>

definition truthy :: "string option \<Rightarrow> bool" where
  "truthy v = (case v of None \<Rightarrow> False | Some s \<Rightarrow> s \<noteq> [])"

definition js_gt :: "string option \<Rightarrow> string option \<Rightarrow> bool" where
  "js_gt a b = (case (a, b) of (Some x, Some y) \<Rightarrow> y < x | _ \<Rightarrow> False)"

definition js_lt :: "string option \<Rightarrow> string option \<Rightarrow> bool" where
  "js_lt a b = (case (a, b) of (Some x, Some y) \<Rightarrow> x < y | _ \<Rightarrow> False)"

text \<open>\<^verbatim>\<open>Array.prototype.join\<close>.\<close>

fun join :: "string \<Rightarrow> string list \<Rightarrow> string" where
  "join sep [] = []"
| "join sep [x] = x"
| "join sep (x # y # ys) = x @ sep @ join sep (y # ys)"

text \<open>
  \<^verbatim>\<open>Map<string, string>\<close>: an association list in insertion order. \<^verbatim>\<open>set\<close> overwrites an
  existing entry in place and appends a new one; \<^verbatim>\<open>get\<close> of a missing key is
  \<^verbatim>\<open>undefined\<close>. A value can itself be \<^verbatim>\<open>undefined\<close> at run time (line 240 stores
  \<^verbatim>\<open>newTweets[0].id\<close> unchecked), so the values are \<open>string option\<close>.
\<close>

type_synonym watermarks = "(string \<times> string option) list"

fun map_set :: "string \<Rightarrow> string option \<Rightarrow> watermarks \<Rightarrow> watermarks" where
  "map_set k v [] = [(k, v)]"
| "map_set k v ((k', v') # al) = (if k' = k then (k, v) # al else (k', v') # map_set k v al)"

definition map_has :: "string \<Rightarrow> watermarks \<Rightarrow> bool" where
  "map_has k al = (k \<in> set (map fst al))"

definition map_get :: "string \<Rightarrow> watermarks \<Rightarrow> string option" where
  "map_get k al = (case map_of al k of None \<Rightarrow> None | Some v \<Rightarrow> v)"

subsection \<open>Profiles and tweets\<close>

text \<open>
  The fields the formatters read. A field the code guards (\<^verbatim>\<open>||\<close>, \<^verbatim>\<open>?:\<close>, \<^verbatim>\<open>?.\<close>) is
  optional; a field it dereferences unguarded is required. A \<^verbatim>\<open>Date\<close> is its epoch
  milliseconds; a boolean flag that is missing is \<open>False\<close>, as \<^verbatim>\<open>?:\<close> reads it.
\<close>

record profile =
  username :: string
  name :: string
  biography :: string
  followersCount :: int
  friendsCount :: int
  tweetsCount :: int
  mediaCount :: int
  likesCount :: int
  listedCount :: int
  joined :: int
  location :: "string option"
  website :: "string option"
  isVerified :: bool
  isBlueVerified :: bool
  isPrivate :: bool
  avatar :: string
  banner :: "string option"
  pinnedTweetIds :: "string list option"

record status =
  rt_username :: string
  rt_text :: string
  rt_likes :: int
  rt_retweets :: int
  rt_replies :: int

record tweet =
  tw_id :: "string option"
  tw_username :: string
  tw_text :: string
  tw_timeParsed :: "int option"
  tw_timestamp :: "int option"
  tw_isRetweet :: bool
  tw_retweetedStatus :: "status option"
  tw_likes :: int
  tw_retweets :: int
  tw_replies :: int
  tw_photos :: "string list option"
  tw_videos :: "string list option"
  tw_urls :: "string list option"
  tw_hashtags :: "string list option"

datatype exn = AuthError | ClientError | StoreError | TypeError | RangeError
  | SyntaxError | ProfileError string

text \<open>
  The functions of the JavaScript host the scraper calls are parameters: how a number
  and a \<^verbatim>\<open>Date\<close> print (locale and time zone decide), and the JSON codec for the two
  documents the scraper reads back (\<^verbatim>\<open>JSON.parse\<close> with the property reads that follow
  it, which throw on a malformed document).
\<close>

record host =
  toLocaleString :: "int \<Rightarrow> string"
  numberToString :: "int \<Rightarrow> string"
  dateToString :: "int \<Rightarrow> string"
  toISOString :: "int \<Rightarrow> string"
  stringify_state :: "watermarks \<Rightarrow> int \<Rightarrow> string"
  parse_state :: "string \<Rightarrow> exn + (string \<times> string) list"
  parse_tweets :: "string \<Rightarrow> exn + tweet option list"

subsection \<open>The scraper and its collaborators\<close>

record knowledge =
  k_id :: string
  k_text :: string
  k_createdAt :: int

datatype event = ClientInit | GetUserProfile string | GetUserTweets string
  | GetKnowledge string | RemoveKnowledge string | CreateKnowledge string string

datatype timer = Timeout nat | Interval nat

text \<open>
  \<open>trace\<close> lists every call made to a collaborator, in order. A call fails when its
  position in the trace is in \<open>faults\<close>, so any pattern of transient failures is a
  choice of that set; a failed call changes nothing. \<open>clock\<close> gives the reading of
  \<^verbatim>\<open>Date.now()\<close> as a function of the number of calls made so far.
\<close>

record scraper =
  targetAccounts :: "string list"
  scrapeInterval :: nat
  isRunning :: bool
  lastScrapedTweets :: watermarks
  timers :: "timer list"
  ragKnowledge :: "knowledge list"
  user_profile :: "string \<Rightarrow> profile option"
  user_tweets :: "string \<Rightarrow> tweet option list option"
  trace :: "event list"
  faults :: "nat set"
  clock :: "nat \<Rightarrow> int"

type_synonym 'a outcome = "(exn + 'a) \<times> scraper"

definition fails :: "scraper \<Rightarrow> bool" where
  "fails w = (length (trace w) \<in> faults w)"

definition called :: "event \<Rightarrow> scraper \<Rightarrow> scraper" where
  "called e w = w\<lparr>trace := trace w @ [e]\<rparr>"

definition Date_now :: "scraper \<Rightarrow> int" where
  "Date_now w = clock w (length (trace w))"

definition stateId :: string where
  "stateId = ''twitter-scraper-state''"

text \<open>
  \<^verbatim>\<open>stringToUuid\<close> of \<^verbatim>\<open>@elizaos/core\<close> hashes a key to a UUID. It is deterministic and two
  keys are taken never to collide, so a key stands for its own UUID.
\<close>

definition stringToUuid :: "string \<Rightarrow> string" where
  "stringToUuid s = s"

text \<open>
  Modelled from the spec: the ContentStore of section 6 (\<^verbatim>\<open>ragKnowledgeManager\<close> of the
  runtime, whose code is not part of the repository): fetch by key, delete by key and
  create, each of which may fail with a store error. The store is a list of records and
  \<^verbatim>\<open>createKnowledge\<close> does not look for an earlier record of the same key, so that holding
  one record per key is a property of the caller.
\<close>

definition lookup :: "string \<Rightarrow> knowledge list \<Rightarrow> knowledge list" where
  "lookup k st = filter (\<lambda>r. k_id r = k) st"

definition getKnowledge :: "string \<Rightarrow> scraper \<Rightarrow> knowledge list outcome" where
  "getKnowledge k w =
     (if fails w then (Inl StoreError, called (GetKnowledge k) w)
      else (Inr (lookup k (ragKnowledge w)), called (GetKnowledge k) w))"

definition removeKnowledge :: "string \<Rightarrow> scraper \<Rightarrow> unit outcome" where
  "removeKnowledge k w =
     (if fails w then (Inl StoreError, called (RemoveKnowledge k) w)
      else (Inr (), called (RemoveKnowledge k)
                      (w\<lparr>ragKnowledge := filter (\<lambda>r. k_id r \<noteq> k) (ragKnowledge w)\<rparr>)))"

definition createKnowledge :: "string \<Rightarrow> string \<Rightarrow> int \<Rightarrow> scraper \<Rightarrow> unit outcome" where
  "createKnowledge k content createdAt w =
     (if fails w then (Inl StoreError, called (CreateKnowledge k content) w)
      else (Inr (), called (CreateKnowledge k content)
                      (w\<lparr>ragKnowledge := ragKnowledge w @
                          [\<lparr>k_id = k, k_text = content, k_createdAt = createdAt\<rparr>]\<rparr>)))"

text \<open>
  Modelled from the spec: the SourceClient of section 6 (\<^verbatim>\<open>ClientBase\<close> of \<^verbatim>\<open>./base.ts\<close>,
  not part of the sources at hand): \<^verbatim>\<open>init\<close> fails on bad credentials, \<^verbatim>\<open>getUserProfile\<close>
  gives a profile or nothing, \<^verbatim>\<open>getUserTweets\<close> gives a finite sequence, possibly with
  missing elements, or nothing.
\<close>

definition client_init :: "scraper \<Rightarrow> unit outcome" where
  "client_init w =
     (if fails w then (Inl AuthError, called ClientInit w) else (Inr (), called ClientInit w))"

definition getUserProfile :: "string \<Rightarrow> scraper \<Rightarrow> profile option outcome" where
  "getUserProfile u w =
     (if fails w then (Inl ClientError, called (GetUserProfile u) w)
      else (Inr (user_profile w u), called (GetUserProfile u) w))"

definition getUserTweets :: "string \<Rightarrow> scraper \<Rightarrow> tweet option list option outcome" where
  "getUserTweets u w =
     (if fails w then (Inl ClientError, called (GetUserTweets u) w)
      else (Inr (user_tweets w u), called (GetUserTweets u) w))"

subsection \<open>\<^verbatim>\<open>storeKnowledge\<close> (lines 250 to 288)\<close>

text \<open>
  The \<^verbatim>\<open>catch\<close> block logs and rethrows, so an exception of any of the three store calls
  is the outcome. \<^verbatim>\<open>existing[0]\<close> is the first record found.
\<close>

definition storeKnowledge :: "string \<Rightarrow> string \<Rightarrow> scraper \<Rightarrow> unit outcome" where
  "storeKnowledge ident content w =
     (case getKnowledge (stringToUuid ident) w of
        (Inl e, w1) \<Rightarrow> (Inl e, w1)
      | (Inr existing, w1) \<Rightarrow>
          if existing \<noteq> [] \<and> k_text (hd existing) = content then (Inr (), w1)
          else
            (case (if existing \<noteq> [] then removeKnowledge (stringToUuid ident) w1
                   else (Inr (), w1)) of
               (Inl e, w2) \<Rightarrow> (Inl e, w2)
             | (Inr _, w2) \<Rightarrow>
                 createKnowledge (stringToUuid ident) content (Date_now w2) w2))"

subsection \<open>The formatters (lines 120 to 193)\<close>

definition nl :: string where
  "nl = [CHR 0x0A]"

text \<open>\<^verbatim>\<open>v || d\<close> on an optional string: the empty string is falsy too.\<close>

definition or_else :: "string option \<Rightarrow> string \<Rightarrow> string" where
  "or_else v d = (case v of None \<Rightarrow> d | Some s \<Rightarrow> if s = [] then d else s)"

definition yes_no :: "bool \<Rightarrow> string" where
  "yes_no b = (if b then ''Yes'' else ''No'')"

text \<open>\<^verbatim>\<open>sections.filter(Boolean)\<close> drops \<^verbatim>\<open>null\<close> and the empty string.\<close>

definition filter_Boolean :: "string option list \<Rightarrow> string list" where
  "filter_Boolean xs = map the (filter truthy xs)"

definition profile_sections :: "host \<Rightarrow> profile \<Rightarrow> string option list" where
  "profile_sections H p =
     [Some (''Twitter Profile: @'' @ username p),
      Some (''Name: '' @ name p),
      Some (''Bio: '' @ biography p),
      Some ''Metrics:'',
      Some (''- Followers: '' @ toLocaleString H (followersCount p)),
      Some (''- Following: '' @ toLocaleString H (friendsCount p)),
      Some (''- Total Tweets: '' @ toLocaleString H (tweetsCount p)),
      Some (''- Media Posts: '' @ toLocaleString H (mediaCount p)),
      Some (''- Likes Given: '' @ toLocaleString H (likesCount p)),
      Some (''- Listed In: '' @ toLocaleString H (listedCount p)),
      Some ''Account Details:'',
      Some (''- Joined: '' @ dateToString H (joined p)),
      Some (''- Location: '' @ or_else (location p) ''Not specified''),
      Some (''- Website: '' @ or_else (website p) ''Not specified''),
      Some ''Status:'',
      Some (''- Verified: '' @ yes_no (isVerified p)),
      Some (''- Twitter Blue: '' @ yes_no (isBlueVerified p)),
      Some (''- Private Account: '' @ yes_no (isPrivate p)),
      Some ''Media:'',
      Some (''- Avatar: '' @ avatar p),
      (case banner p of
         None \<Rightarrow> None
       | Some b \<Rightarrow> if b = [] then None else Some (''- Banner: '' @ b)),
      (case pinnedTweetIds p of
         None \<Rightarrow> None
       | Some ids \<Rightarrow>
           if ids = [] then None else Some (''Pinned Tweets: '' @ join '', '' ids))]"

definition profile_lines :: "host \<Rightarrow> profile \<Rightarrow> string list" where
  "profile_lines H p = filter_Boolean (profile_sections H p)"

definition formatProfileForRAG :: "host \<Rightarrow> profile \<Rightarrow> string" where
  "formatProfileForRAG H p = join nl (profile_lines H p)"

text \<open>
  \<^verbatim>\<open>tweet.timeParsed || new Date(tweet.timestamp * 1000).toISOString()\<close>: without
  \<^verbatim>\<open>timeParsed\<close> and with no timestamp the date is invalid, and \<^verbatim>\<open>toISOString\<close> throws a
  RangeError, as it does beyond 8.64e15 milliseconds.
\<close>

definition tweet_time :: "host \<Rightarrow> tweet \<Rightarrow> exn + string" where
  "tweet_time H t =
     (case tw_timeParsed t of
        Some d \<Rightarrow> Inr (dateToString H d)
      | None \<Rightarrow>
          (case tw_timestamp t of
             None \<Rightarrow> Inl RangeError
           | Some s \<Rightarrow>
               if \<bar>s * 1000\<bar> > 8640000000000000 then Inl RangeError
               else Inr (toISOString H (s * 1000))))"

definition tweet_body :: "host \<Rightarrow> tweet \<Rightarrow> string \<Rightarrow> string" where
  "tweet_body H t timestamp =
     (case (if tw_isRetweet t then tw_retweetedStatus t else None) of
        Some rs \<Rightarrow>
          ''Retweet by @'' @ tw_username t @ '' ('' @ timestamp @ '')'' @ nl @
          ''Original tweet by @'' @ rt_username rs @ '':'' @ nl @
          rt_text rs @ nl @ nl @
          ''Original Engagement: '' @ numberToString H (rt_likes rs) @ '' likes, '' @
          numberToString H (rt_retweets rs) @ '' retweets, '' @
          numberToString H (rt_replies rs) @ '' replies''
      | None \<Rightarrow>
          ''Tweet by @'' @ tw_username t @ '' ('' @ timestamp @ '')'' @ nl @
          tw_text t @ nl @ nl @
          ''Engagement: '' @ numberToString H (tw_likes t) @ '' likes, '' @
          numberToString H (tw_retweets t) @ '' retweets, '' @
          numberToString H (tw_replies t) @ '' replies'')"

text \<open>One appended section: \<^verbatim>\<open>if (xs?.length > 0) content += `\nLabel: ${xs.join(sep)}`\<close>.\<close>

definition section_of :: "string \<Rightarrow> string \<Rightarrow> string list option \<Rightarrow> string" where
  "section_of label sep xs =
     (case xs of
        None \<Rightarrow> []
      | Some ys \<Rightarrow> if ys = [] then [] else nl @ label @ '': '' @ join sep ys)"

definition formatTweetForRAG :: "host \<Rightarrow> tweet \<Rightarrow> exn + string" where
  "formatTweetForRAG H t =
     (case tweet_time H t of
        Inl e \<Rightarrow> Inl e
      | Inr timestamp \<Rightarrow>
          Inr (tweet_body H t timestamp @
               section_of ''Photos'' '', '' (tw_photos t) @
               section_of ''Videos'' '', '' (tw_videos t) @
               section_of ''Links'' '', '' (tw_urls t) @
               section_of ''Hashtags'' '' '' (tw_hashtags t)))"

subsection \<open>Persisted state (lines 60 to 118)\<close>

text \<open>\<^verbatim>\<open>saveState\<close> swallows every exception.\<close>

definition saveState :: "host \<Rightarrow> scraper \<Rightarrow> scraper" where
  "saveState H w =
     snd (storeKnowledge stateId (stringify_state H (lastScrapedTweets w) (Date_now w)) w)"

text \<open>
  \<^verbatim>\<open>loadState\<close>: the entries of the parsed document are written into the map one by one;
  a store or parse failure is swallowed before any entry is written.
\<close>

definition loadState :: "host \<Rightarrow> scraper \<Rightarrow> scraper" where
  "loadState H w =
     (case getKnowledge (stringToUuid stateId) w of
        (Inl e, w1) \<Rightarrow> w1
      | (Inr state, w1) \<Rightarrow>
          if state \<noteq> [] then
            (case parse_state H (k_text (hd state)) of
               Inl e \<Rightarrow> w1
             | Inr entries \<Rightarrow>
                 w1\<lparr>lastScrapedTweets :=
                      foldl (\<lambda>m (u, tweetId). map_set u (Some tweetId) m)
                        (lastScrapedTweets w1) entries\<rparr>)
          else w1)"

text \<open>
  The body of the loop of \<^verbatim>\<open>initializeLastScrapedTweets\<close> for a source without an entry.
  \<^verbatim>\<open>tweets[0].id\<close> on a \<^verbatim>\<open>null\<close> element throws inside the \<^verbatim>\<open>try\<close>.
\<close>

definition seed_account :: "host \<Rightarrow> string \<Rightarrow> scraper \<Rightarrow> scraper" where
  "seed_account H u w =
     (case getKnowledge (stringToUuid (u @ ''-tweets'')) w of
        (Inl e, w1) \<Rightarrow> w1
      | (Inr existingTweets, w1) \<Rightarrow>
          if existingTweets \<noteq> [] then
            (case parse_tweets H (k_text (hd existingTweets)) of
               Inl e \<Rightarrow> w1
             | Inr [] \<Rightarrow> w1
             | Inr (None # _) \<Rightarrow> w1
             | Inr (Some t # _) \<Rightarrow>
                 w1\<lparr>lastScrapedTweets := map_set u (tw_id t) (lastScrapedTweets w1)\<rparr>)
          else w1)"

fun initialize_loop :: "host \<Rightarrow> string list \<Rightarrow> scraper \<Rightarrow> scraper" where
  "initialize_loop H [] w = w"
| "initialize_loop H (u # us) w =
     initialize_loop H us
       (if map_has u (lastScrapedTweets w) then w else seed_account H u w)"

definition initializeLastScrapedTweets :: "host \<Rightarrow> scraper \<Rightarrow> scraper" where
  "initializeLastScrapedTweets H w = initialize_loop H (targetAccounts w) w"

subsection \<open>One pass: \<^verbatim>\<open>scrapeData\<close> (lines 195 to 248)\<close>

text \<open>
  \<^verbatim>\<open>tweets.filter(tweet => tweet.id > lastScrapedId)\<close>: the callback reads \<^verbatim>\<open>tweet.id\<close>, which
  throws a TypeError at a \<^verbatim>\<open>null\<close> element.
\<close>

fun filter_newer :: "string option \<Rightarrow> tweet option list \<Rightarrow> exn + tweet option list" where
  "filter_newer lastScrapedId [] = Inr []"
| "filter_newer lastScrapedId (None # ts) = Inl TypeError"
| "filter_newer lastScrapedId (Some t # ts) =
     (case filter_newer lastScrapedId ts of
        Inl e \<Rightarrow> Inl e
      | Inr r \<Rightarrow> Inr (if js_gt (tw_id t) lastScrapedId then Some t # r else r))"

definition newTweets :: "string option \<Rightarrow> tweet option list \<Rightarrow> exn + tweet option list" where
  "newTweets lastScrapedId tweets =
     (if truthy lastScrapedId then filter_newer lastScrapedId tweets else Inr tweets)"

text \<open>
  The loop over \<^verbatim>\<open>newTweets\<close> (lines 223 to 237). Its \<^verbatim>\<open>catch\<close> block logs and goes on with the
  next tweet, whatever was thrown by the formatter or the store.
\<close>

fun store_tweets :: "host \<Rightarrow> tweet option list \<Rightarrow> scraper \<Rightarrow> scraper" where
  "store_tweets H [] w = w"
| "store_tweets H (None # ts) w = store_tweets H ts w"
| "store_tweets H (Some t # ts) w =
     (case tw_id t of
        None \<Rightarrow> store_tweets H ts w
      | Some i \<Rightarrow>
          if i = [] then store_tweets H ts w
          else
            (case formatTweetForRAG H t of
               Inl e \<Rightarrow> store_tweets H ts w
             | Inr formattedContent \<Rightarrow>
                 store_tweets H ts (snd (storeKnowledge (''tweet-'' @ i) formattedContent w))))"

text \<open>
  Lines 239 to 242. \<^verbatim>\<open>newTweets[0].id\<close> throws a TypeError when the first element is
  \<^verbatim>\<open>null\<close>; nothing has been assigned then.
\<close>

definition advance :: "host \<Rightarrow> string \<Rightarrow> tweet option list \<Rightarrow> scraper \<Rightarrow> unit outcome" where
  "advance H u new w =
     (case new of
        [] \<Rightarrow> (Inr (), w)
      | None # _ \<Rightarrow> (Inl TypeError, w)
      | Some t # _ \<Rightarrow>
          (Inr (), saveState H (w\<lparr>lastScrapedTweets := map_set u (tw_id t) (lastScrapedTweets w)\<rparr>)))"

text \<open>The body of the \<^verbatim>\<open>try\<close> block for one account (lines 198 to 242).\<close>

definition scrape_account :: "host \<Rightarrow> string \<Rightarrow> scraper \<Rightarrow> unit outcome" where
  "scrape_account H u w =
     (case getUserProfile u w of
        (Inl e, w1) \<Rightarrow> (Inl e, w1)
      | (Inr None, w1) \<Rightarrow> (Inl (ProfileError u), w1)
      | (Inr (Some p), w1) \<Rightarrow>
          (case storeKnowledge (u @ ''-profile'') (formatProfileForRAG H p) w1 of
             (Inl e, w2) \<Rightarrow> (Inl e, w2)
           | (Inr _, w2) \<Rightarrow>
               (case getUserTweets u w2 of
                  (Inl e, w3) \<Rightarrow> (Inl e, w3)
                | (Inr None, w3) \<Rightarrow> (Inr (), w3)
                | (Inr (Some tweets), w3) \<Rightarrow>
                    if tweets = [] then (Inr (), w3)
                    else
                      (case newTweets (map_get u (lastScrapedTweets w3)) tweets of
                         Inl e \<Rightarrow> (Inl e, w3)
                       | Inr new \<Rightarrow> advance H u new (store_tweets H new w3)))))"

text \<open>The \<^verbatim>\<open>catch\<close> block of line 244 logs and the loop goes on with the next account.\<close>

fun scrape_loop :: "host \<Rightarrow> string list \<Rightarrow> scraper \<Rightarrow> unit outcome" where
  "scrape_loop H [] w = (Inr (), w)"
| "scrape_loop H (u # us) w =
     (case scrape_account H u w of
        (Inl e, w') \<Rightarrow> scrape_loop H us w'
      | (Inr _, w') \<Rightarrow> scrape_loop H us w')"

definition scrapeData :: "host \<Rightarrow> scraper \<Rightarrow> unit outcome" where
  "scrapeData H w = scrape_loop H (targetAccounts w) w"

subsection \<open>\<^verbatim>\<open>start\<close> (lines 21 to 58)\<close>

text \<open>
  The two timers are recorded, not run: their callbacks call \<^verbatim>\<open>scrapeData\<close> later and
  catch what it throws.
\<close>

definition start :: "host \<Rightarrow> scraper \<Rightarrow> unit outcome" where
  "start H w =
     (if isRunning w then (Inr (), w)
      else
        (case client_init (w\<lparr>isRunning := True\<rparr>) of
           (Inl e, w1) \<Rightarrow> (Inl e, w1\<lparr>isRunning := False\<rparr>)
         | (Inr _, w1) \<Rightarrow>
             (let w2 = initializeLastScrapedTweets H (loadState H w1)
              in (Inr (), w2\<lparr>timers := timers w2 @ [Timeout 0, Interval (scrapeInterval w2)]\<rparr>))))"

subsection \<open>The filter of section 8, in the spec's words\<close>

text \<open>
  The spec calls \<open>newItems\<close> the maximal prefix of the fetched sequence whose identifiers
  compare greater than the watermark. \<open>newer W\<close> is the test of one item; a sequence is
  newest first when every item has an identifier and the identifiers do not increase.
\<close>

definition newer :: "string option \<Rightarrow> tweet option \<Rightarrow> bool" where
  "newer W t = (case t of None \<Rightarrow> False | Some x \<Rightarrow> js_gt (tw_id x) W)"

definition maximal_prefix :: "string option \<Rightarrow> tweet option list \<Rightarrow> tweet option list" where
  "maximal_prefix W ts = takeWhile (newer W) ts"

definition present :: "tweet option list \<Rightarrow> bool" where
  "present ts = (\<forall>t\<in>set ts. case t of None \<Rightarrow> False | Some x \<Rightarrow> tw_id x \<noteq> None)"

definition ids :: "tweet option list \<Rightarrow> string list" where
  "ids ts = map (\<lambda>t. the (tw_id (the t))) ts"

definition newest_first :: "tweet option list \<Rightarrow> bool" where
  "newest_first ts = (present ts \<and> sorted_wrt (\<lambda>a b. b \<le> a) (ids ts))"

text \<open>An item without its four lists of media, links and tags.\<close>

definition bare :: "tweet \<Rightarrow> tweet" where
  "bare t = t\<lparr>tw_photos := None, tw_videos := None, tw_urls := None, tw_hashtags := None\<rparr>"

subsection \<open>Auxiliary notions for the proofs\<close>

text \<open>What no method changes: the configuration, the upstream data, the faults, the clock.\<close>

definition same_world :: "scraper \<Rightarrow> scraper \<Rightarrow> bool" where
  "same_world w w' \<longleftrightarrow>
     targetAccounts w' = targetAccounts w \<and> scrapeInterval w' = scrapeInterval w \<and>
     isRunning w' = isRunning w \<and> timers w' = timers w \<and>
     user_profile w' = user_profile w \<and> user_tweets w' = user_tweets w \<and>
     faults w' = faults w \<and> clock w' = clock w"

text \<open>The states between the steps of \<open>scrape_account\<close>.\<close>

definition after_upsert :: "host \<Rightarrow> string \<Rightarrow> profile \<Rightarrow> scraper \<Rightarrow> scraper" where
  "after_upsert H u p w =
     snd (storeKnowledge (u @ ''-profile'') (formatProfileForRAG H p) (snd (getUserProfile u w)))"

definition after_fetch :: "host \<Rightarrow> string \<Rightarrow> profile \<Rightarrow> scraper \<Rightarrow> scraper" where
  "after_fetch H u p w = snd (getUserTweets u (after_upsert H u p w))"

text \<open>
  The state in which line 240 has just assigned the watermark of \<open>u\<close>: the loop over the new
  tweets is through and nothing has been saved yet.
\<close>

definition advanced :: "host \<Rightarrow> string \<Rightarrow> tweet option list \<Rightarrow> scraper \<Rightarrow> scraper" where
  "advanced H u new w =
     (store_tweets H new (after_fetch H u (the (user_profile w u)) w))
       \<lparr>lastScrapedTweets := map_set u (tw_id (the (hd new))) (lastScrapedTweets w)\<rparr>"

text \<open>The accounts whose profile was asked of the client, in the order of the calls.\<close>

fun fetched :: "event list \<Rightarrow> string list" where
  "fetched [] = []"
| "fetched (GetUserProfile u # es) = u # fetched es"
| "fetched (e # es) = fetched es"

text \<open>
  The seed of section 4.1, in the spec's words: the identifier of the first item of the
  item collection stored for a source, when there is such a collection, it can be read
  and it has a first item.
\<close>

definition newest_stored :: "host \<Rightarrow> knowledge list \<Rightarrow> string \<Rightarrow> string option option" where
  "newest_stored H st u =
     (case lookup (u @ ''-tweets'') st of
        [] \<Rightarrow> None
      | r # _ \<Rightarrow>
          (case parse_tweets H (k_text r) of
             Inr (Some t # _) \<Rightarrow> Some (tw_id t)
           | _ \<Rightarrow> None))"

text \<open>The keys of the records deleted or created, in the order of the calls.\<close>

fun written :: "event list \<Rightarrow> string list" where
  "written [] = []"
| "written (RemoveKnowledge k # es) = k # written es"
| "written (CreateKnowledge k c # es) = k # written es"
| "written (e # es) = written es"

text \<open>
  An account is quiet when a block has nothing to store for it: no profile, no tweets,
  or a watermark that no fetched tweet passes. Its upstream is orderly when the
  fetched sequence is newest first with identifiers that are not empty. Its profile is
  current when the first record stored for it holds the text of the fetched profile.
\<close>

definition quiet :: "scraper \<Rightarrow> string \<Rightarrow> bool" where
  "quiet w u =
     (user_profile w u = None \<or>
      (case user_tweets w u of
         None \<Rightarrow> True
       | Some ts \<Rightarrow> ts = [] \<or> newTweets (map_get u (lastScrapedTweets w)) ts = Inr []))"

definition orderly :: "scraper \<Rightarrow> string \<Rightarrow> bool" where
  "orderly w u =
     (case user_tweets w u of None \<Rightarrow> True | Some ts \<Rightarrow> newest_first ts \<and> [] \<notin> set (ids ts))"

definition current :: "host \<Rightarrow> scraper \<Rightarrow> string \<Rightarrow> bool" where
  "current H w u =
     (case user_profile w u of
        None \<Rightarrow> True
      | Some p \<Rightarrow>
          (case lookup (u @ ''-profile'') (ragKnowledge w) of
             [] \<Rightarrow> False
           | r # _ \<Rightarrow> k_text r = formatProfileForRAG H p))"

subsection \<open>Example data\<close>

text \<open>A host that prints numbers in decimal, without grouping, and dates as their number.\<close>

fun decimal :: "nat \<Rightarrow> string" where
  "decimal n =
     (if n < 10 then [''0123456789'' ! n]
      else decimal (n div 10) @ [''0123456789'' ! (n mod 10)])"

declare decimal.simps [simp del]

definition show_int :: "int \<Rightarrow> string" where
  "show_int i = (if i < 0 then ''-'' @ decimal (nat (- i)) else decimal (nat i))"

definition tweet_of :: "string option \<Rightarrow> tweet" where
  "tweet_of i =
     \<lparr>tw_id = i, tw_username = ''alice'', tw_text = ''hello'', tw_timeParsed = None,
      tw_timestamp = Some 1, tw_isRetweet = False, tw_retweetedStatus = None,
      tw_likes = 1, tw_retweets = 0, tw_replies = 0, tw_photos = None,
      tw_videos = Some [], tw_urls = Some [''https://a.example''], tw_hashtags = None\<rparr>"

definition show_entry :: "string \<times> string option \<Rightarrow> string" where
  "show_entry e = (case e of (u, v) \<Rightarrow> u @ ''='' @ the v)"

definition host0 :: host where
  "host0 =
     \<lparr>toLocaleString = show_int, numberToString = show_int, dateToString = show_int,
      toISOString = show_int,
      stringify_state =
        (\<lambda>m t. join '','' (map show_entry (filter (\<lambda>e. snd e \<noteq> None) m)) @ ''@'' @ show_int t),
      parse_state = (\<lambda>s. if s = ''alice=7@0'' then Inr [(''alice'', ''7'')] else Inl SyntaxError),
      parse_tweets =
        (\<lambda>s. if s = ''[42,41]'' then Inr [Some (tweet_of (Some ''42'')), Some (tweet_of (Some ''41''))]
             else Inl SyntaxError)\<rparr>"

definition alice :: profile where
  "alice =
     \<lparr>username = ''alice'', name = ''Alice'', biography = ''bio'', followersCount = 12,
      friendsCount = 3, tweetsCount = 2, mediaCount = 0, likesCount = 5, listedCount = 0,
      joined = 0, location = None, website = Some ''https://a.example'', isVerified = True,
      isBlueVerified = False, isPrivate = False, avatar = ''a.png'', banner = None,
      pinnedTweetIds = Some []\<rparr>"

text \<open>An idle scraper for one account, with an empty store and a client that serves \<open>ts\<close>.\<close>

definition idle :: "tweet option list \<Rightarrow> scraper" where
  "idle ts =
     \<lparr>targetAccounts = [''alice''], scrapeInterval = 60000, isRunning = False,
      lastScrapedTweets = [], timers = [], ragKnowledge = [],
      user_profile = (\<lambda>u. if u = ''alice'' then Some alice else None),
      user_tweets = (\<lambda>u. if u = ''alice'' then Some ts else None),
      trace = [], faults = {}, clock = (\<lambda>n. 1000 + int n)\<rparr>"

definition stored :: scraper where
  "stored = (idle [])\<lparr>ragKnowledge := [\<lparr>k_id = ''alice-profile'', k_text = ''old'', k_createdAt = 0\<rparr>]\<rparr>"

definition sorted3 :: "tweet option list" where
  "sorted3 = [Some (tweet_of (Some ''9'')), Some (tweet_of (Some ''7'')), Some (tweet_of (Some ''3''))]"

definition unsorted :: "tweet option list" where
  "unsorted = [Some (tweet_of (Some ''9'')), Some (tweet_of (Some ''3'')), Some (tweet_of (Some ''7''))]"

definition running :: scraper where
  "running = (idle [])\<lparr>isRunning := True\<rparr>"

definition seeded :: scraper where
  "seeded = (idle sorted3)\<lparr>lastScrapedTweets := [(''alice'', Some ''5'')]\<rparr>"

definition two :: "tweet option list" where
  "two = [Some (tweet_of (Some ''10'')), Some (tweet_of (Some ''9''))]"

text \<open>The sixth call of the pass, the create of the newest tweet, fails.\<close>

definition faulty :: scraper where
  "faulty = (idle two)\<lparr>faults := {5}\<rparr>"

definition headless :: scraper where
  "headless = idle [None, Some (tweet_of (Some ''9''))]"

definition nameless :: scraper where
  "nameless = idle [Some (tweet_of None), Some (tweet_of (Some ''9''))]"

text \<open>Two accounts; the first call to a collaborator fails.\<close>

definition offline :: scraper where
  "offline = (idle two)\<lparr>targetAccounts := [''bob'', ''alice''], faults := {0}\<rparr>"

text \<open>
  A restart: item collections are stored for two of three accounts, the third has its
  watermark already, and the first call to the store fails.
\<close>

definition restarted :: scraper where
  "restarted =
     (idle two)\<lparr>targetAccounts := [''bob'', ''alice'', ''carol''],
                 lastScrapedTweets := [(''carol'', Some ''7'')],
                 ragKnowledge := [\<lparr>k_id = ''alice-tweets'', k_text = ''[42,41]'', k_createdAt = 0\<rparr>,
                                  \<lparr>k_id = ''bob-tweets'', k_text = ''[42,41]'', k_createdAt = 0\<rparr>],
                 faults := {0}\<rparr>"

text \<open>The first call of the first pass, the fetch of the profile, fails.\<close>

definition flaky :: scraper where
  "flaky = (idle sorted3)\<lparr>faults := {0}\<rparr>"

text \<open>A feed in rising order, against a watermark set before.\<close>

definition rising :: scraper where
  "rising =
     (idle [Some (tweet_of (Some ''3'')), Some (tweet_of (Some ''7'')), Some (tweet_of (Some ''9''))])
       \<lparr>lastScrapedTweets := [(''alice'', Some ''5'')]\<rparr>"

section \<open>Properties\<close>

subsection \<open>The upsert\<close>

text \<open>
  C3. \<^verbatim>\<open>storeKnowledge\<close> on a key whose first record holds the very text calls the store
  once, to read, and changes nothing. On a key whose record holds another text it
  makes one delete and then one create, and on a new key one create, when these calls
  succeed. Whatever fails, a store with at most one record for each key still has at
  most one record for each key afterwards.
\<close>

theorem storeKnowledge_upsert:
  "(length (trace w) \<notin> faults w \<and> lookup ident (ragKnowledge w) \<noteq> [] \<and>
      k_text (hd (lookup ident (ragKnowledge w))) = content \<longrightarrow>
      storeKnowledge ident content w = (Inr (), w\<lparr>trace := trace w @ [GetKnowledge ident]\<rparr>))
   \<and> ((\<forall>n<3. length (trace w) + n \<notin> faults w) \<and> lookup ident (ragKnowledge w) \<noteq> [] \<and>
      k_text (hd (lookup ident (ragKnowledge w))) \<noteq> content \<longrightarrow>
      storeKnowledge ident content w =
        (Inr (), w\<lparr>trace := trace w @
                     [GetKnowledge ident, RemoveKnowledge ident, CreateKnowledge ident content],
                   ragKnowledge := filter (\<lambda>r. k_id r \<noteq> ident) (ragKnowledge w) @
                     [\<lparr>k_id = ident, k_text = content,
                       k_createdAt = clock w (length (trace w) + 2)\<rparr>]\<rparr>))
   \<and> ((\<forall>n<2. length (trace w) + n \<notin> faults w) \<and> lookup ident (ragKnowledge w) = [] \<longrightarrow>
      storeKnowledge ident content w =
        (Inr (), w\<lparr>trace := trace w @ [GetKnowledge ident, CreateKnowledge ident content],
                   ragKnowledge := ragKnowledge w @
                     [\<lparr>k_id = ident, k_text = content,
                       k_createdAt = clock w (length (trace w) + 1)\<rparr>]\<rparr>))
   \<and> (distinct (map k_id (ragKnowledge w)) \<longrightarrow>
      distinct (map k_id (ragKnowledge (snd (storeKnowledge ident content w)))))"
proof (intro conjI impI)
  assume "length (trace w) \<notin> faults w \<and> lookup ident (ragKnowledge w) \<noteq> [] \<and>
      k_text (hd (lookup ident (ragKnowledge w))) = content"
  then show "storeKnowledge ident content w = (Inr (), w\<lparr>trace := trace w @ [GetKnowledge ident]\<rparr>)"
    by (simp add: storeKnowledge_def getKnowledge_def fails_def called_def stringToUuid_def)
next
  assume a: "(\<forall>n<3. length (trace w) + n \<notin> faults w) \<and> lookup ident (ragKnowledge w) \<noteq> [] \<and>
      k_text (hd (lookup ident (ragKnowledge w))) \<noteq> content"
  have "length (trace w) \<notin> faults w" "Suc (length (trace w)) \<notin> faults w"
    "Suc (Suc (length (trace w))) \<notin> faults w"
    using a[THEN conjunct1, rule_format, of 0] a[THEN conjunct1, rule_format, of 1]
      a[THEN conjunct1, rule_format, of 2] by simp_all
  with a show "storeKnowledge ident content w =
        (Inr (), w\<lparr>trace := trace w @
                     [GetKnowledge ident, RemoveKnowledge ident, CreateKnowledge ident content],
                   ragKnowledge := filter (\<lambda>r. k_id r \<noteq> ident) (ragKnowledge w) @
                     [\<lparr>k_id = ident, k_text = content,
                       k_createdAt = clock w (length (trace w) + 2)\<rparr>]\<rparr>)"
    by (simp add: storeKnowledge_def getKnowledge_def removeKnowledge_def createKnowledge_def
        fails_def called_def stringToUuid_def Date_now_def)
next
  assume a: "(\<forall>n<2. length (trace w) + n \<notin> faults w) \<and> lookup ident (ragKnowledge w) = []"
  have "length (trace w) \<notin> faults w" "Suc (length (trace w)) \<notin> faults w"
    using a[THEN conjunct1, rule_format, of 0] a[THEN conjunct1, rule_format, of 1]
    by simp_all
  with a show "storeKnowledge ident content w =
        (Inr (), w\<lparr>trace := trace w @ [GetKnowledge ident, CreateKnowledge ident content],
                   ragKnowledge := ragKnowledge w @
                     [\<lparr>k_id = ident, k_text = content,
                       k_createdAt = clock w (length (trace w) + 1)\<rparr>]\<rparr>)"
    by (simp add: storeKnowledge_def getKnowledge_def removeKnowledge_def createKnowledge_def
        fails_def called_def stringToUuid_def Date_now_def)
next
  assume d: "distinct (map k_id (ragKnowledge w))"
  have f: "distinct (map k_id (filter (\<lambda>r. k_id r \<noteq> ident) (ragKnowledge w)))"
    using d by (simp add: distinct_map_filter)
  have l: "lookup ident (ragKnowledge w) = [] \<Longrightarrow> ident \<notin> k_id ` set (ragKnowledge w)"
    by (auto simp: lookup_def filter_empty_conv)
  show "distinct (map k_id (ragKnowledge (snd (storeKnowledge ident content w))))"
    using d f l
    by (auto simp: storeKnowledge_def getKnowledge_def removeKnowledge_def createKnowledge_def
        fails_def called_def stringToUuid_def Date_now_def)
qed

theorem storeKnowledge_upsert_witness:
  "storeKnowledge ''alice-profile'' ''old'' stored =
     (Inr (), stored\<lparr>trace := [GetKnowledge ''alice-profile'']\<rparr>)
   \<and> storeKnowledge ''alice-profile'' ''new'' stored =
     (Inr (), stored\<lparr>trace := [GetKnowledge ''alice-profile'', RemoveKnowledge ''alice-profile'',
                                 CreateKnowledge ''alice-profile'' ''new''],
                      ragKnowledge := [\<lparr>k_id = ''alice-profile'', k_text = ''new'',
                                        k_createdAt = 1002\<rparr>]\<rparr>)
   \<and> storeKnowledge ''bob-profile'' ''new'' stored =
     (Inr (), stored\<lparr>trace := [GetKnowledge ''bob-profile'', CreateKnowledge ''bob-profile'' ''new''],
                      ragKnowledge := [\<lparr>k_id = ''alice-profile'', k_text = ''old'', k_createdAt = 0\<rparr>,
                                       \<lparr>k_id = ''bob-profile'', k_text = ''new'',
                                        k_createdAt = 1001\<rparr>]\<rparr>)
   \<and> distinct (map k_id (ragKnowledge stored))
   \<and> distinct (map k_id (ragKnowledge (snd (storeKnowledge ''alice-profile'' ''new'' stored))))"
  using storeKnowledge_upsert [of stored "''alice-profile''" "''old''"]
    storeKnowledge_upsert [of stored "''alice-profile''" "''new''"]
    storeKnowledge_upsert [of stored "''bob-profile''" "''new''"]
  by (simp add: stored_def idle_def lookup_def)

subsection \<open>The filter by watermark\<close>

lemma tweet_of_eq [simp]: "tweet_of i = tweet_of j \<longleftrightarrow> i = j"
  by (auto simp: tweet_of_def)

lemma tw_id_tweet_of [simp]: "tw_id (tweet_of i) = i"
  by (simp add: tweet_of_def)

lemma filter_newer_filter:
  "None \<notin> set ts \<Longrightarrow> filter_newer W ts = Inr (filter (newer W) ts)"
proof (induction ts)
  case Nil
  then show ?case by simp
next
  case (Cons a ts)
  then obtain x where "a = Some x" by (cases a) auto
  with Cons show ?case by (simp add: newer_def)
qed

lemma filter_newer_None: "None \<in> set ts \<Longrightarrow> filter_newer W ts = Inl TypeError"
proof (induction ts)
  case Nil
  then show ?case by simp
next
  case (Cons a ts)
  then show ?case by (cases a) (auto split: sum.splits)
qed

lemma filter_newer_Inr:
  "filter_newer W ts = Inr new \<Longrightarrow> None \<notin> set ts \<and> new = filter (newer W) ts"
  using filter_newer_None[of ts W] filter_newer_filter[of ts W] by (cases "None \<in> set ts") auto

lemma newer_descending:
  assumes "present ts" "sorted_wrt (\<lambda>a b. b \<le> a) (ids ts)"
  shows "filter (newer (Some W)) ts = takeWhile (newer (Some W)) ts"
  using assms
proof (induction ts)
  case Nil
  then show ?case by simp
next
  case (Cons a ts)
  then obtain x i where a: "a = Some x" "tw_id x = Some i"
    by (cases a) (auto simp: present_def)
  have p: "present ts" using Cons.prems by (simp add: present_def)
  show ?case
  proof (cases "newer (Some W) a")
    case True
    with Cons p show ?thesis by (simp add: ids_def)
  next
    case False
    then have iw: "i \<le> W" using a by (simp add: newer_def js_gt_def)
    have "\<not> newer (Some W) t" if "t \<in> set ts" for t
    proof -
      from that p have "case t of None \<Rightarrow> False | Some x \<Rightarrow> tw_id x \<noteq> None"
        by (simp add: present_def)
      then obtain y j where t: "t = Some y" "tw_id y = Some j"
        by (cases t) auto
      from that Cons.prems(2) a t have "j \<le> i" by (force simp: ids_def)
      with iw t show ?thesis by (simp add: newer_def js_gt_def)
    qed
    then have "filter (newer (Some W)) ts = []" by (simp add: filter_empty_conv)
    with False show ?thesis by simp
  qed
qed

text \<open>
  C5, as amended. Without a watermark (or with an empty one) everything fetched is new.
  With a watermark and no missing element, \<open>newItems\<close> is every item of the sequence whose
  identifier compares greater than the watermark, wherever it stands; on a sequence that
  is newest first this is the maximal prefix of such items.
\<close>

theorem newTweets_is_filter:
  "(\<not> truthy W \<longrightarrow> newTweets W ts = Inr ts)
   \<and> (truthy W \<and> None \<notin> set ts \<longrightarrow>
        newTweets W ts = Inr (filter (newer W) ts) \<and>
        (\<forall>t\<in>set (filter (newer W) ts). \<exists>x. t = Some x \<and> js_gt (tw_id x) W))
   \<and> (truthy W \<and> newest_first ts \<longrightarrow> newTweets W ts = Inr (maximal_prefix W ts))"
proof (intro conjI impI)
  assume "\<not> truthy W"
  then show "newTweets W ts = Inr ts" by (simp add: newTweets_def)
next
  assume "truthy W \<and> None \<notin> set ts"
  then show "newTweets W ts = Inr (filter (newer W) ts)"
    by (simp add: newTweets_def filter_newer_filter)
next
  show "\<forall>t\<in>set (filter (newer W) ts). \<exists>x. t = Some x \<and> js_gt (tw_id x) W"
    by (auto simp: newer_def split: option.splits)
next
  assume a: "truthy W \<and> newest_first ts"
  then obtain s where W: "W = Some s" by (cases W) (auto simp: truthy_def)
  from a have n: "None \<notin> set ts" by (auto simp: newest_first_def present_def)
  from a W n show "newTweets W ts = Inr (maximal_prefix W ts)"
    by (simp add: newTweets_def filter_newer_filter maximal_prefix_def newest_first_def
        newer_descending)
qed

text \<open>
  C5 as stated fails on a sequence that is not in order: the item \<open>7\<close> stands after \<open>3\<close>, the
  first item not greater than the watermark \<open>5\<close>, and is still taken.
\<close>

theorem newTweets_prefix_counterexample:
  "newTweets (Some ''5'') unsorted = Inr [Some (tweet_of (Some ''9'')), Some (tweet_of (Some ''7''))]
   \<and> maximal_prefix (Some ''5'') unsorted = [Some (tweet_of (Some ''9''))]
   \<and> newTweets (Some ''5'') unsorted \<noteq> Inr (maximal_prefix (Some ''5'') unsorted)"
  by (simp add: newTweets_def unsorted_def maximal_prefix_def newer_def js_gt_def truthy_def)

theorem newTweets_is_filter_witness:
  "newTweets None unsorted = Inr unsorted
   \<and> truthy (Some ''5'') \<and> None \<notin> set unsorted
   \<and> newTweets (Some ''5'') unsorted = Inr (filter (newer (Some ''5'')) unsorted)
   \<and> newest_first sorted3
   \<and> newTweets (Some ''5'') sorted3 = Inr (maximal_prefix (Some ''5'') sorted3)"
proof -
  have a: "\<not> truthy None" and b: "truthy (Some ''5'')"
    by (simp_all add: truthy_def)
  have c: "None \<notin> set unsorted"
    by (simp add: unsorted_def)
  have d: "newest_first sorted3"
    by (simp add: sorted3_def newest_first_def present_def ids_def)
  show ?thesis
    using a b c d newTweets_is_filter [of None unsorted]
      newTweets_is_filter [of "Some ''5''" unsorted]
      newTweets_is_filter [of "Some ''5''" sorted3]
    by blast
qed

lemma present_elem:
  assumes "present ts" "y \<in> set ts"
  shows "\<exists>x j. y = Some x \<and> tw_id x = Some j"
proof -
  from assms have "case y of None \<Rightarrow> False | Some x \<Rightarrow> tw_id x \<noteq> None"
    by (simp add: present_def)
  then show ?thesis by (cases y) auto
qed

text \<open>The first item that passes the filter of a sequence that is newest first is the newest.\<close>

lemma first_is_newest:
  assumes "newest_first ts" "filter Q ts = Some t # rest" "Some x \<in> set ts" "Q (Some x)"
  shows "the (tw_id x) \<le> the (tw_id t)"
  using assms
proof (induction ts)
  case Nil
  then show ?case by simp
next
  case (Cons a ts)
  from Cons.prems(1) have n: "newest_first ts"
    by (simp add: newest_first_def present_def ids_def)
  show ?case
  proof (cases "Q a")
    case True
    with Cons.prems(2) have a: "a = Some t" by simp
    show ?thesis
    proof (cases "Some x = a")
      case True
      with a show ?thesis by simp
    next
      case False
      with Cons.prems(3) have "Some x \<in> set ts" by simp
      with Cons.prems(1) a show ?thesis
        by (force simp: newest_first_def ids_def)
    qed
  next
    case False
    with Cons.prems have "filter Q ts = Some t # rest" "Some x \<in> set ts" by auto
    from Cons.IH[OF n this Cons.prems(4)] show ?thesis .
  qed
qed

lemma newTweets_head_newest:
  assumes nf: "newest_first ts" and new: "newTweets W ts = Inr (Some t # rest)"
    and x: "Some x \<in> set ts"
  shows "the (tw_id x) \<le> the (tw_id t)"
proof (cases "truthy W")
  case False
  with new have "filter (\<lambda>_. True) ts = Some t # rest"
    by (simp add: newTweets_def)
  from first_is_newest[OF nf this x] show ?thesis by simp
next
  case True
  then obtain s where s: "W = Some s" by (cases W) (auto simp: truthy_def)
  from nf have pr: "present ts" and nn: "None \<notin> set ts"
    by (auto simp: newest_first_def present_def)
  from True new nn have f: "filter (newer W) ts = Some t # rest"
    by (simp add: newTweets_def filter_newer_filter)
  then have "Some t \<in> set (filter (newer W) ts)" by simp
  then have "newer W (Some t)" by simp
  with s obtain i where i: "tw_id t = Some i" "s < i"
    by (auto simp: newer_def js_gt_def split: option.splits)
  show ?thesis
  proof (cases "newer W (Some x)")
    case True
    from first_is_newest[OF nf f x True] show ?thesis .
  next
    case False
    from present_elem[OF pr x] obtain j where j: "tw_id x = Some j" by auto
    with False s have "j \<le> s" by (simp add: newer_def js_gt_def)
    with i j show ?thesis by simp
  qed
qed

subsection \<open>Starting twice\<close>

text \<open>
  C7, as amended. \<^verbatim>\<open>start\<close> on a scraper that is running returns at once and without an
  error, and leaves the whole state as it was: the client is not initialised again, no
  state is loaded, no timer is added.
\<close>

theorem start_while_running: "isRunning w \<Longrightarrow> start H w = (Inr (), w)"
  by (simp add: start_def)

text \<open>
  C7 as stated fails: the caller of \<^verbatim>\<open>start\<close> on a running scraper gets a normal return
  (line 24), not a failure.
\<close>

theorem start_while_running_counterexample:
  "isRunning running \<and> fst (start host0 running) = Inr () \<and> \<not> isl (fst (start host0 running))"
  by (simp add: start_def running_def)

theorem start_while_running_witness:
  "isRunning running \<and> start host0 running = (Inr (), running)"
proof -
  have r: "isRunning running" by (simp add: running_def)
  from r start_while_running [OF r, of host0] show ?thesis by simp
qed

subsection \<open>The formatters\<close>

lemma section_of_empty: "section_of label sep xs = [] \<longleftrightarrow> xs = None \<or> xs = Some []"
  by (simp add: section_of_def nl_def split: option.splits)

lemma tweet_time_bare [simp]: "tweet_time H (bare t) = tweet_time H t"
  by (simp add: tweet_time_def bare_def cong: option.case_cong)

lemma tweet_body_bare [simp]: "tweet_body H (bare t) s = tweet_body H t s"
  by (simp add: tweet_body_def bare_def cong: option.case_cong)

lemma formatTweet_bare:
  "formatTweetForRAG H t = Inr s \<Longrightarrow>
   \<exists>b. formatTweetForRAG H (bare t) = Inr b \<and>
       s = b @ section_of ''Photos'' '', '' (tw_photos t) @ section_of ''Videos'' '', '' (tw_videos t) @
           section_of ''Links'' '', '' (tw_urls t) @ section_of ''Hashtags'' '' '' (tw_hashtags t)"
proof -
  assume a: "formatTweetForRAG H t = Inr s"
  then obtain ts where ts: "tweet_time H t = Inr ts"
    by (cases "tweet_time H t") (simp_all add: formatTweetForRAG_def)
  have e: "section_of l sp None = []" for l sp by (simp add: section_of_def)
  have "formatTweetForRAG H (bare t) = Inr (tweet_body H t ts)"
    using ts by (simp add: formatTweetForRAG_def) (simp add: bare_def e)
  with a ts show ?thesis by (simp add: formatTweetForRAG_def)
qed


lemma profile_lines_length:
  "length (profile_lines H p) =
     20 + (if truthy (banner p) then 1 else 0) +
     (case pinnedTweetIds p of None \<Rightarrow> 0 | Some xs \<Rightarrow> if xs = [] then 0 else 1)"
  by (simp add: profile_lines_def profile_sections_def filter_Boolean_def truthy_def
      split: option.splits)


text \<open>
  C9, as amended. The profile formatter prints \<open>Not specified\<close> for a location or a website
  that is missing or empty; the banner line is there exactly when there is a banner and
  the line of pinned tweets exactly when the list is not empty, after the twenty lines
  that are always printed; the line of pinned tweets is the last and lists them. The text of an item is the text of the item without its
  lists, followed by the sections Photos, Videos, Links and Hashtags, each of which is
  empty exactly when its list is missing or empty. The formatters are functions of the
  host and their input.
\<close>

theorem formatters_render:
  "(\<not> truthy (location p) \<longrightarrow> profile_lines H p ! 12 = ''- Location: Not specified'')
   \<and> (\<not> truthy (website p) \<longrightarrow> profile_lines H p ! 13 = ''- Website: Not specified'')
   \<and> (truthy (banner p) \<longrightarrow> profile_lines H p ! 20 = ''- Banner: '' @ the (banner p))
   \<and> length (profile_lines H p) =
       20 + (if truthy (banner p) then 1 else 0) +
       (case pinnedTweetIds p of None \<Rightarrow> 0 | Some xs \<Rightarrow> if xs = [] then 0 else 1)
   \<and> (formatTweetForRAG H t = Inr s \<longrightarrow>
        (\<exists>b. formatTweetForRAG H (bare t) = Inr b \<and>
             s = b @ section_of ''Photos'' '', '' (tw_photos t) @
                 section_of ''Videos'' '', '' (tw_videos t) @
                 section_of ''Links'' '', '' (tw_urls t) @
                 section_of ''Hashtags'' '' '' (tw_hashtags t)))
   \<and> (section_of label sep xs = [] \<longleftrightarrow> xs = None \<or> xs = Some [])
   \<and> (p = p' \<longrightarrow> formatProfileForRAG H p = formatProfileForRAG H p')
   \<and> (t = t' \<longrightarrow> formatTweetForRAG H t = formatTweetForRAG H t')
   \<and> (pinnedTweetIds p = Some pins \<and> pins \<noteq> [] \<longrightarrow>
        last (profile_lines H p) = ''Pinned Tweets: '' @ join '', '' pins)"
proof (intro conjI impI)
  assume "\<not> truthy (location p)"
  then show "profile_lines H p ! 12 = ''- Location: Not specified''"
    by (simp add: profile_lines_def profile_sections_def filter_Boolean_def truthy_def
        or_else_def split: option.splits)
next
  assume "\<not> truthy (website p)"
  then show "profile_lines H p ! 13 = ''- Website: Not specified''"
    by (simp add: profile_lines_def profile_sections_def filter_Boolean_def truthy_def
        or_else_def split: option.splits)
next
  assume "truthy (banner p)"
  then show "profile_lines H p ! 20 = ''- Banner: '' @ the (banner p)"
    by (simp add: profile_lines_def profile_sections_def filter_Boolean_def truthy_def
        split: option.splits)
next
  show "length (profile_lines H p) =
       20 + (if truthy (banner p) then 1 else 0) +
       (case pinnedTweetIds p of None \<Rightarrow> 0 | Some xs \<Rightarrow> if xs = [] then 0 else 1)"
    by (rule profile_lines_length)
next
  assume "formatTweetForRAG H t = Inr s"
  then show "\<exists>b. formatTweetForRAG H (bare t) = Inr b \<and>
             s = b @ section_of ''Photos'' '', '' (tw_photos t) @
                 section_of ''Videos'' '', '' (tw_videos t) @
                 section_of ''Links'' '', '' (tw_urls t) @
                 section_of ''Hashtags'' '' '' (tw_hashtags t)"
    by (rule formatTweet_bare)
next
  show "section_of label sep xs = [] \<longleftrightarrow> xs = None \<or> xs = Some []"
    by (rule section_of_empty)
next
  assume "pinnedTweetIds p = Some pins \<and> pins \<noteq> []"
  then show "last (profile_lines H p) = ''Pinned Tweets: '' @ join '', '' pins"
    by (simp add: profile_lines_def profile_sections_def filter_Boolean_def truthy_def
        split: option.splits)
qed simp_all

text \<open>
  C9 as stated fails: a profile without a banner is printed with no banner line at all,
  where the missing location is printed as \<open>Not specified\<close>.
\<close>

theorem formatters_render_counterexample:
  "banner alice = None \<and>
   profile_lines host0 alice =
     [''Twitter Profile: @alice'', ''Name: Alice'', ''Bio: bio'', ''Metrics:'',
      ''- Followers: 12'', ''- Following: 3'', ''- Total Tweets: 2'', ''- Media Posts: 0'',
      ''- Likes Given: 5'', ''- Listed In: 0'', ''Account Details:'', ''- Joined: 0'',
      ''- Location: Not specified'', ''- Website: https://a.example'', ''Status:'',
      ''- Verified: Yes'', ''- Twitter Blue: No'', ''- Private Account: No'', ''Media:'',
      ''- Avatar: a.png'']"
  by (simp add: profile_lines_def profile_sections_def host0_def alice_def filter_Boolean_def
      truthy_def or_else_def yes_no_def show_int_def decimal.simps)

theorem formatters_render_witness:
  "\<not> truthy (location alice) \<and> profile_lines host0 alice ! 12 = ''- Location: Not specified''
   \<and> \<not> truthy (website (alice\<lparr>website := Some []\<rparr>))
   \<and> profile_lines host0 (alice\<lparr>website := Some []\<rparr>) ! 13 = ''- Website: Not specified''
   \<and> truthy (banner (alice\<lparr>banner := Some ''b.png''\<rparr>))
   \<and> profile_lines host0 (alice\<lparr>banner := Some ''b.png''\<rparr>) ! 20 = ''- Banner: b.png''
   \<and> formatTweetForRAG host0 (tweet_of (Some ''9'')) =
       Inr (''Tweet by @alice (1000)'' @ nl @ ''hello'' @ nl @ nl @
            ''Engagement: 1 likes, 0 retweets, 0 replies'' @ nl @ ''Links: https://a.example'')
   \<and> (\<exists>b. formatTweetForRAG host0 (bare (tweet_of (Some ''9''))) = Inr b \<and>
          ''Tweet by @alice (1000)'' @ nl @ ''hello'' @ nl @ nl @
          ''Engagement: 1 likes, 0 retweets, 0 replies'' @ nl @ ''Links: https://a.example'' =
          b @ nl @ ''Links: https://a.example'')
   \<and> pinnedTweetIds (alice\<lparr>pinnedTweetIds := Some [''1'', ''2'']\<rparr>) = Some [''1'', ''2'']
   \<and> last (profile_lines host0 (alice\<lparr>pinnedTweetIds := Some [''1'', ''2'']\<rparr>)) =
       ''Pinned Tweets: 1, 2''"
proof -
  let ?s = "''Tweet by @alice (1000)'' @ nl @ ''hello'' @ nl @ nl @
            ''Engagement: 1 likes, 0 retweets, 0 replies'' @ nl @ ''Links: https://a.example''"
  have a: "\<not> truthy (location alice)" "\<not> truthy (website (alice\<lparr>website := Some []\<rparr>))"
    "truthy (banner (alice\<lparr>banner := Some ''b.png''\<rparr>))"
    by (simp_all add: truthy_def alice_def)
  have t: "formatTweetForRAG host0 (tweet_of (Some ''9'')) = Inr ?s"
    by (simp add: formatTweetForRAG_def tweet_time_def tweet_body_def section_of_def
        tweet_of_def host0_def show_int_def decimal.simps)
  have s: "section_of ''Photos'' '', '' (tw_photos (tweet_of (Some ''9''))) = []"
    "section_of ''Videos'' '', '' (tw_videos (tweet_of (Some ''9''))) = []"
    "section_of ''Hashtags'' '' '' (tw_hashtags (tweet_of (Some ''9''))) = []"
    "section_of ''Links'' '', '' (tw_urls (tweet_of (Some ''9''))) = nl @ ''Links: https://a.example''"
    by (simp_all add: section_of_def tweet_of_def)
  have 1: "profile_lines host0 alice ! 12 = ''- Location: Not specified''"
    using formatters_render [of alice host0] a(1) by blast
  have 2: "profile_lines host0 (alice\<lparr>website := Some []\<rparr>) ! 13 = ''- Website: Not specified''"
    using formatters_render [of "alice\<lparr>website := Some []\<rparr>" host0] a(2) by blast
  have 3: "profile_lines host0 (alice\<lparr>banner := Some ''b.png''\<rparr>) ! 20 =
      ''- Banner: '' @ the (banner (alice\<lparr>banner := Some ''b.png''\<rparr>))"
    using formatters_render [of "alice\<lparr>banner := Some ''b.png''\<rparr>" host0] a(3) by blast
  have 4: "\<exists>b. formatTweetForRAG host0 (bare (tweet_of (Some ''9''))) = Inr b \<and>
      ?s = b @ section_of ''Photos'' '', '' (tw_photos (tweet_of (Some ''9''))) @
          section_of ''Videos'' '', '' (tw_videos (tweet_of (Some ''9''))) @
          section_of ''Links'' '', '' (tw_urls (tweet_of (Some ''9''))) @
          section_of ''Hashtags'' '' '' (tw_hashtags (tweet_of (Some ''9'')))"
    using formatters_render [of alice host0 "tweet_of (Some ''9'')" ?s] t by blast
  have 5: "\<exists>b. formatTweetForRAG host0 (bare (tweet_of (Some ''9''))) = Inr b \<and>
      ?s = b @ nl @ ''Links: https://a.example''"
    using 4 unfolding s by simp
  from 3 have 6: "profile_lines host0 (alice\<lparr>banner := Some ''b.png''\<rparr>) ! 20 = ''- Banner: b.png''"
    by simp
  have 7: "pinnedTweetIds (alice\<lparr>pinnedTweetIds := Some [''1'', ''2'']\<rparr>) = Some [''1'', ''2'']"
    by simp
  have "last (profile_lines host0 (alice\<lparr>pinnedTweetIds := Some [''1'', ''2'']\<rparr>)) =
      ''Pinned Tweets: '' @ join '', '' [''1'', ''2'']"
    using formatters_render [of "alice\<lparr>pinnedTweetIds := Some [''1'', ''2'']\<rparr>" host0] 7
    by blast
  then have 8: "last (profile_lines host0 (alice\<lparr>pinnedTweetIds := Some [''1'', ''2'']\<rparr>)) =
      ''Pinned Tweets: 1, 2''"
    by simp
  show ?thesis
    by (intro conjI a 1 2 6 t 5 7 8)
qed

subsection \<open>What the calls leave alone\<close>

lemma same_world_refl [simp]: "same_world w w"
  by (simp add: same_world_def)

lemma same_world_trans: "same_world w w' \<Longrightarrow> same_world w' w'' \<Longrightarrow> same_world w w''"
  by (simp add: same_world_def)

lemma same_world_fields:
  assumes "same_world w w'"
  shows "targetAccounts w' = targetAccounts w" "scrapeInterval w' = scrapeInterval w"
    "isRunning w' = isRunning w" "timers w' = timers w"
    "user_profile w' = user_profile w" "user_tweets w' = user_tweets w"
    "faults w' = faults w" "clock w' = clock w"
  using assms by (simp_all add: same_world_def)

lemmas store_defs = storeKnowledge_def getKnowledge_def removeKnowledge_def createKnowledge_def
  called_def stringToUuid_def

lemma storeKnowledge_same [simp]: "same_world w (snd (storeKnowledge i c w))"
  by (simp add: store_defs same_world_def)

lemma storeKnowledge_table [simp]:
  "lastScrapedTweets (snd (storeKnowledge i c w)) = lastScrapedTweets w"
  by (simp add: store_defs)

lemma getUserProfile_same [simp]: "same_world w (snd (getUserProfile u w))"
  by (simp add: getUserProfile_def called_def same_world_def)

lemma getUserProfile_keeps [simp]:
  "lastScrapedTweets (snd (getUserProfile u w)) = lastScrapedTweets w"
  "ragKnowledge (snd (getUserProfile u w)) = ragKnowledge w"
  by (simp_all add: getUserProfile_def called_def)

lemma getUserTweets_same [simp]: "same_world w (snd (getUserTweets u w))"
  by (simp add: getUserTweets_def called_def same_world_def)

lemma getUserTweets_keeps [simp]:
  "lastScrapedTweets (snd (getUserTweets u w)) = lastScrapedTweets w"
  "ragKnowledge (snd (getUserTweets u w)) = ragKnowledge w"
  by (simp_all add: getUserTweets_def called_def)

lemma saveState_same [simp]: "same_world w (saveState H w)"
  by (simp add: saveState_def)

lemma saveState_table [simp]: "lastScrapedTweets (saveState H w) = lastScrapedTweets w"
  by (simp add: saveState_def)

lemma store_tweets_same [simp]: "same_world w (store_tweets H ts w)"
proof (induction H ts w rule: store_tweets.induct)
  case (3 H t ts w)
  show ?case
  proof (cases "tw_id t")
    case None
    with 3 show ?thesis by simp
  next
    case (Some i)
    show ?thesis
    proof (cases "i = []")
      case True
      with Some 3 show ?thesis by simp
    next
      case False
      show ?thesis
      proof (cases "formatTweetForRAG H t")
        case (Inl e)
        with Some False 3 show ?thesis by simp
      next
        case (Inr c)
        have "same_world w (snd (storeKnowledge (''tweet-'' @ i) c w))"
          by (rule storeKnowledge_same)
        from same_world_trans[OF this 3(4)[OF Some False Inr]]
        show ?thesis using Some False Inr by simp
      qed
    qed
  qed
qed simp_all

lemma store_tweets_table [simp]: "lastScrapedTweets (store_tweets H ts w) = lastScrapedTweets w"
  by (induction H ts w rule: store_tweets.induct) (simp_all split: option.splits sum.splits)

lemma advance_same [simp]: "same_world w (snd (advance H u new w))"
proof (cases new)
  case Nil
  then show ?thesis by (simp add: advance_def)
next
  case (Cons a list)
  show ?thesis
  proof (cases a)
    case None
    with Cons show ?thesis by (simp add: advance_def)
  next
    case (Some t)
    have "same_world (w\<lparr>lastScrapedTweets := map_set u (tw_id t) (lastScrapedTweets w)\<rparr>)
       (saveState H (w\<lparr>lastScrapedTweets := map_set u (tw_id t) (lastScrapedTweets w)\<rparr>))"
      by (rule saveState_same)
    then show ?thesis using Cons Some by (simp add: advance_def same_world_def)
  qed
qed

lemma advance_table:
  "lastScrapedTweets (snd (advance H u new w)) =
     (case new of Some t # _ \<Rightarrow> map_set u (tw_id t) (lastScrapedTweets w)
      | _ \<Rightarrow> lastScrapedTweets w)"
  by (simp add: advance_def split: list.splits option.splits)

lemma advance_outcome:
  "fst (advance H u new w) = (case new of None # _ \<Rightarrow> Inl TypeError | _ \<Rightarrow> Inr ())"
  by (simp add: advance_def split: list.splits option.splits)


lemma after_upsert_same [simp]: "same_world w (after_upsert H u p w)"
  unfolding after_upsert_def
  by (rule same_world_trans[OF getUserProfile_same storeKnowledge_same])

lemma after_upsert_table [simp]:
  "lastScrapedTweets (after_upsert H u p w) = lastScrapedTweets w"
  by (simp add: after_upsert_def)

lemma after_fetch_same [simp]: "same_world w (after_fetch H u p w)"
  unfolding after_fetch_def
  by (rule same_world_trans[OF after_upsert_same getUserTweets_same])

lemma after_fetch_table [simp]:
  "lastScrapedTweets (after_fetch H u p w) = lastScrapedTweets w"
  by (simp add: after_fetch_def)

lemma after_fetch_store [simp]:
  "ragKnowledge (after_fetch H u p w) = ragKnowledge (after_upsert H u p w)"
  by (simp add: after_fetch_def)

lemma scrape_account_unfold:
  "scrape_account H u w =
     (case fst (getUserProfile u w) of
        Inl e \<Rightarrow> (Inl e, snd (getUserProfile u w))
      | Inr None \<Rightarrow> (Inl (ProfileError u), snd (getUserProfile u w))
      | Inr (Some p) \<Rightarrow>
          (case fst (storeKnowledge (u @ ''-profile'') (formatProfileForRAG H p)
                      (snd (getUserProfile u w))) of
             Inl e \<Rightarrow> (Inl e, after_upsert H u p w)
           | Inr _ \<Rightarrow>
               (case fst (getUserTweets u (after_upsert H u p w)) of
                  Inl e \<Rightarrow> (Inl e, after_fetch H u p w)
                | Inr None \<Rightarrow> (Inr (), after_fetch H u p w)
                | Inr (Some tweets) \<Rightarrow>
                    if tweets = [] then (Inr (), after_fetch H u p w)
                    else
                      (case newTweets (map_get u (lastScrapedTweets w)) tweets of
                         Inl e \<Rightarrow> (Inl e, after_fetch H u p w)
                       | Inr new \<Rightarrow>
                           advance H u new (store_tweets H new (after_fetch H u p w))))))"
proof -
  obtain r1 w1 where g1: "getUserProfile u w = (r1, w1)"
    by (cases "getUserProfile u w")
  show ?thesis
  proof (cases r1)
    case (Inl e)
    with g1 show ?thesis by (simp add: scrape_account_def)
  next
    case r1: (Inr po)
    show ?thesis
    proof (cases po)
      case None
      with g1 r1 show ?thesis by (simp add: scrape_account_def)
    next
      case (Some p)
      obtain r2 w2 where g2:
        "storeKnowledge (u @ ''-profile'') (formatProfileForRAG H p) w1 = (r2, w2)"
        by (cases "storeKnowledge (u @ ''-profile'') (formatProfileForRAG H p) w1")
      obtain r3 w3 where g3: "getUserTweets u w2 = (r3, w3)"
        by (cases "getUserTweets u w2")
      have "lastScrapedTweets w1 = lastScrapedTweets w"
        using getUserProfile_keeps(1)[of u w] by (simp add: g1)
      moreover have "lastScrapedTweets w2 = lastScrapedTweets w1"
        using storeKnowledge_table[of "u @ ''-profile''" "formatProfileForRAG H p" w1]
        by (simp only: g2 snd_conv)
      moreover have "lastScrapedTweets w3 = lastScrapedTweets w2"
        using getUserTweets_keeps(1)[of u w2] by (simp add: g3)
      ultimately have t: "lastScrapedTweets w3 = lastScrapedTweets w" by simp
      have a: "after_upsert H u p w = w2" "after_fetch H u p w = w3"
        using g1 g2 g3 by (simp_all only: after_fetch_def after_upsert_def snd_conv)
      show ?thesis
        by (simp add: scrape_account_def g1 r1 Some a g2 g3 t split: sum.splits option.splits)
    qed
  qed
qed

lemma getUserProfile_fst:
  "fst (getUserProfile u w) = (if fails w then Inl ClientError else Inr (user_profile w u))"
  by (simp add: getUserProfile_def)

lemma getUserTweets_fst:
  "fst (getUserTweets u w) = (if fails w then Inl ClientError else Inr (user_tweets w u))"
  by (simp add: getUserTweets_def)

lemma scrape_account_same [simp]: "same_world w (snd (scrape_account H u w))"
proof -
  have "same_world w (snd (advance H u new (store_tweets H new (after_fetch H u p w))))"
    for new p
    by (rule same_world_trans[OF same_world_trans[OF after_fetch_same store_tweets_same]
          advance_same])
  then show ?thesis
    by (simp add: scrape_account_unfold split: sum.splits option.splits)
qed

lemma scrape_account_table:
  "lastScrapedTweets (snd (scrape_account H u w)) = lastScrapedTweets w \<or>
   (\<exists>ts t rest. user_tweets w u = Some ts \<and> ts \<noteq> [] \<and>
      newTweets (map_get u (lastScrapedTweets w)) ts = Inr (Some t # rest) \<and>
      fst (scrape_account H u w) = Inr () \<and>
      lastScrapedTweets (snd (scrape_account H u w)) =
        map_set u (tw_id t) (lastScrapedTweets w))"
proof -
  have t: "user_tweets (after_upsert H u p w) = user_tweets w" for p
    using same_world_fields(6)[OF after_upsert_same] .
  show ?thesis
    by (auto simp: scrape_account_unfold getUserTweets_fst t advance_table advance_outcome
        split: sum.splits option.splits list.splits if_splits)
qed


subsection \<open>The watermark table\<close>

lemma map_of_map_set: "map_of (map_set k v al) = (map_of al)(k \<mapsto> v)"
  by (induction al) (auto simp: fun_eq_iff)

lemma map_get_map_set: "map_get k (map_set k' v al) = (if k = k' then v else map_get k al)"
  by (simp add: map_get_def map_of_map_set)

lemma map_has_dom: "map_has k al \<longleftrightarrow> k \<in> dom (map_of al)"
  by (simp add: map_has_def dom_map_of_conv_image_fst)

lemma map_has_map_set: "map_has k (map_set k' v al) \<longleftrightarrow> k = k' \<or> map_has k al"
  by (simp add: map_has_dom map_of_map_set)

lemma filter_newer_head:
  "filter_newer W ts = Inr (Some t # rest) \<Longrightarrow> js_gt (tw_id t) W"
proof -
  assume "filter_newer W ts = Inr (Some t # rest)"
  then have "filter (newer W) ts = Some t # rest"
    using filter_newer_Inr[of W ts "Some t # rest"] by simp
  then have "Some t \<in> set (filter (newer W) ts)"
    by (simp only: list.set_intros(1))
  then show ?thesis by (simp add: newer_def)
qed

lemma js_gt_not_lt: "js_gt a b \<Longrightarrow> \<not> js_lt a b"
  by (auto simp: js_gt_def js_lt_def split: option.splits)

lemma js_lt_irrefl: "\<not> js_lt a a"
  by (auto simp: js_lt_def split: option.splits)

lemma js_lt_falsy: "\<not> truthy b \<Longrightarrow> \<not> js_lt a b"
  by (auto simp: truthy_def js_lt_def split: option.splits)

lemma js_gt_truthy: "js_gt a b \<Longrightarrow> truthy a"
  by (auto simp: truthy_def js_gt_def split: option.splits)

lemma js_gt_trans: "js_gt a b \<Longrightarrow> js_gt b c \<Longrightarrow> js_gt a c"
  by (auto simp: js_gt_def split: option.splits)

text \<open>One account: an entry stays, or moves to an identifier that compares greater.\<close>

lemma scrape_account_entry:
  assumes "map_has k (lastScrapedTweets w)"
  shows "map_has k (lastScrapedTweets (snd (scrape_account H u w))) \<and>
     (map_get k (lastScrapedTweets (snd (scrape_account H u w))) = map_get k (lastScrapedTweets w)
      \<or> (\<not> truthy (map_get k (lastScrapedTweets w)) \<or>
          js_gt (map_get k (lastScrapedTweets (snd (scrape_account H u w))))
            (map_get k (lastScrapedTweets w))))"
proof -
  let ?T = "lastScrapedTweets w" and ?T' = "lastScrapedTweets (snd (scrape_account H u w))"
  from scrape_account_table[of H u w] consider "?T' = ?T"
    | ts t rest where "newTweets (map_get u ?T) ts = Inr (Some t # rest)"
        "?T' = map_set u (tw_id t) ?T"
    by blast
  then show ?thesis
  proof cases
    case 1
    with assms show ?thesis by simp
  next
    case 2
    show ?thesis
    proof (cases "k = u")
      case False
      with 2 assms show ?thesis by (simp add: map_get_map_set map_has_map_set)
    next
      case True
      show ?thesis
      proof (cases "truthy (map_get u ?T)")
        case False
        with True 2 show ?thesis by (simp add: map_has_map_set)
      next
        case t: True
        with 2(1) have "js_gt (tw_id t) (map_get u ?T)"
          by (simp add: newTweets_def filter_newer_head)
        with True 2 show ?thesis by (simp add: map_get_map_set map_has_map_set)
      qed
    qed
  qed
qed

lemma scrape_loop_entry:
  "map_has k (lastScrapedTweets w) \<Longrightarrow>
   map_has k (lastScrapedTweets (snd (scrape_loop H us w))) \<and>
     (map_get k (lastScrapedTweets (snd (scrape_loop H us w))) = map_get k (lastScrapedTweets w)
      \<or> (\<not> truthy (map_get k (lastScrapedTweets w)) \<or>
          js_gt (map_get k (lastScrapedTweets (snd (scrape_loop H us w))))
            (map_get k (lastScrapedTweets w))))"
proof (induction us arbitrary: w)
  case Nil
  then show ?case by simp
next
  case (Cons u us)
  let ?w1 = "snd (scrape_account H u w)"
  have l: "scrape_loop H (u # us) w = scrape_loop H us ?w1"
    by (cases "scrape_account H u w") (auto split: sum.splits)
  from scrape_account_entry[OF Cons.prems, of H u]
  have h: "map_has k (lastScrapedTweets ?w1)"
    and s: "map_get k (lastScrapedTweets ?w1) = map_get k (lastScrapedTweets w)
      \<or> \<not> truthy (map_get k (lastScrapedTweets w))
      \<or> js_gt (map_get k (lastScrapedTweets ?w1)) (map_get k (lastScrapedTweets w))"
    by blast+
  from Cons.IH[OF h] s show ?case
    unfolding l by (auto dest: js_gt_trans js_gt_truthy)
qed

text \<open>
  C1, as amended. An account that has an entry in the watermark table keeps one through a pass, and
  the entry after the pass never compares less than the entry before; from a non-empty
  entry it is the same entry or one that compares greater. The comparison is the one
  of line 220, on strings. In the block of one account the table is either left as it
  was or, once the loop over the new tweets is through and the block ends without an
  exception, set for that account to the identifier of the first of the new tweets. That
  is the greatest identifier fetched when the sequence is newest first in that order,
  and need not be otherwise.
\<close>

theorem watermark_monotone:
  "(map_has k (lastScrapedTweets w) \<longrightarrow>
      map_has k (lastScrapedTweets (snd (scrapeData H w))) \<and>
      \<not> js_lt (map_get k (lastScrapedTweets (snd (scrapeData H w))))
             (map_get k (lastScrapedTweets w)) \<and>
      (truthy (map_get k (lastScrapedTweets w)) \<longrightarrow>
         map_get k (lastScrapedTweets (snd (scrapeData H w))) = map_get k (lastScrapedTweets w) \<or>
         js_gt (map_get k (lastScrapedTweets (snd (scrapeData H w))))
               (map_get k (lastScrapedTweets w))))
   \<and> (lastScrapedTweets (snd (scrape_account H u w)) = lastScrapedTweets w \<or>
       (\<exists>ts t rest. user_tweets w u = Some ts \<and> ts \<noteq> [] \<and>
          newTweets (map_get u (lastScrapedTweets w)) ts = Inr (Some t # rest) \<and>
          fst (scrape_account H u w) = Inr () \<and>
          lastScrapedTweets (snd (scrape_account H u w)) =
            map_set u (tw_id t) (lastScrapedTweets w) \<and>
          (newest_first ts \<longrightarrow> (\<forall>x. Some x \<in> set ts \<longrightarrow> the (tw_id x) \<le> the (tw_id t)))))"
proof (intro conjI impI)
  assume h: "map_has k (lastScrapedTweets w)"
  note e = scrape_loop_entry[OF h, of H "targetAccounts w", folded scrapeData_def]
  from e show "map_has k (lastScrapedTweets (snd (scrapeData H w)))" by blast
  from e show "\<not> js_lt (map_get k (lastScrapedTweets (snd (scrapeData H w))))
             (map_get k (lastScrapedTweets w))"
    using js_lt_falsy js_gt_not_lt js_lt_irrefl by metis
  assume "truthy (map_get k (lastScrapedTweets w))"
  with e show "map_get k (lastScrapedTweets (snd (scrapeData H w))) = map_get k (lastScrapedTweets w) \<or>
         js_gt (map_get k (lastScrapedTweets (snd (scrapeData H w))))
               (map_get k (lastScrapedTweets w))"
    by blast
next
  show "lastScrapedTweets (snd (scrape_account H u w)) = lastScrapedTweets w \<or>
       (\<exists>ts t rest. user_tweets w u = Some ts \<and> ts \<noteq> [] \<and>
          newTweets (map_get u (lastScrapedTweets w)) ts = Inr (Some t # rest) \<and>
          fst (scrape_account H u w) = Inr () \<and>
          lastScrapedTweets (snd (scrape_account H u w)) =
            map_set u (tw_id t) (lastScrapedTweets w) \<and>
          (newest_first ts \<longrightarrow> (\<forall>x. Some x \<in> set ts \<longrightarrow> the (tw_id x) \<le> the (tw_id t))))"
    using scrape_account_table[of H u w] newTweets_head_newest by blast
qed

lemmas eval_defs = scrapeData_def scrape_account_def getUserProfile_def getUserTweets_def
  store_defs fails_def lookup_def Date_now_def newTweets_def advance_def saveState_def
  stateId_def js_gt_def truthy_def map_get_def

lemma format_tweet_of:
  "formatTweetForRAG host0 (tweet_of i) =
     Inr (tweet_body host0 (tweet_of i) ''1000'' @ nl @ ''Links: https://a.example'')"
  by (simp add: formatTweetForRAG_def tweet_time_def section_of_def tweet_of_def host0_def
      show_int_def decimal.simps)

text \<open>
  C1 as stated fails in its second half. With the watermark \<open>5\<close> and the feed \<open>3\<close>, \<open>7\<close>, \<open>9\<close>
  the block ends without an exception, \<open>7\<close> and \<open>9\<close> are stored, and the watermark is set
  to \<open>7\<close>, the first that passes the filter, though \<open>9\<close> was seen and compares greater.
  With the feed \<open>10\<close>, \<open>9\<close>, newest first, the first pass sets the watermark to \<open>10\<close> and
  the second moves it to \<open>9\<close>, which as a string compares greater and is the older item.
\<close>

theorem watermark_monotone_counterexample:
  "user_tweets rising ''alice'' =
     Some [Some (tweet_of (Some ''3'')), Some (tweet_of (Some ''7'')), Some (tweet_of (Some ''9''))]
   \<and> lastScrapedTweets rising = [(''alice'', Some ''5'')]
   \<and> fst (scrape_account host0 ''alice'' rising) = Inr ()
   \<and> lastScrapedTweets (snd (scrapeData host0 rising)) = [(''alice'', Some ''7'')]
   \<and> map k_id (ragKnowledge (snd (scrapeData host0 rising))) =
       [''alice-profile'', ''tweet-7'', ''tweet-9'', ''twitter-scraper-state'']
   \<and> js_gt (Some ''9'') (Some ''7'')
   \<and> user_tweets (idle two) ''alice'' = Some two
   \<and> lastScrapedTweets (snd (scrapeData host0 (idle two))) = [(''alice'', Some ''10'')]
   \<and> lastScrapedTweets (snd (scrapeData host0 (snd (scrapeData host0 (idle two))))) =
       [(''alice'', Some ''9'')]"
  by (simp add: eval_defs rising_def idle_def two_def format_tweet_of)

theorem watermark_monotone_witness:
  "map_has ''alice'' (lastScrapedTweets seeded)
   \<and> map_get ''alice'' (lastScrapedTweets seeded) = Some ''5''
   \<and> truthy (Some ''5'')
   \<and> map_get ''alice'' (lastScrapedTweets (snd (scrapeData host0 seeded))) = Some ''9''
   \<and> map_has ''alice'' (lastScrapedTweets (snd (scrapeData host0 seeded)))
   \<and> \<not> js_lt (Some ''9'') (Some ''5'') \<and> js_gt (Some ''9'') (Some ''5'')
   \<and> user_tweets seeded ''alice'' = Some sorted3 \<and> newest_first sorted3
   \<and> (\<exists>t rest. newTweets (Some ''5'') sorted3 = Inr (Some t # rest) \<and>
          fst (scrape_account host0 ''alice'' seeded) = Inr () \<and>
          lastScrapedTweets (snd (scrape_account host0 ''alice'' seeded)) =
            map_set ''alice'' (tw_id t) (lastScrapedTweets seeded) \<and>
          the (tw_id (tweet_of (Some ''7''))) \<le> the (tw_id t) \<and>
          the (tw_id (tweet_of (Some ''3''))) \<le> the (tw_id t))
   \<and> map_has ''alice'' (lastScrapedTweets rising)
   \<and> map_get ''alice'' (lastScrapedTweets rising) = Some ''5''
   \<and> map_get ''alice'' (lastScrapedTweets (snd (scrapeData host0 rising))) = Some ''7''
   \<and> \<not> js_lt (Some ''7'') (Some ''5'')"
proof -
  have e: "lastScrapedTweets (snd (scrapeData host0 seeded)) = [(''alice'', Some ''9'')]"
    by (simp add: eval_defs seeded_def idle_def sorted3_def format_tweet_of)
  have e': "lastScrapedTweets (snd (scrapeData host0 rising)) = [(''alice'', Some ''7'')]"
    by (simp add: eval_defs rising_def idle_def format_tweet_of)
  have b: "lastScrapedTweets (snd (scrape_account host0 ''alice'' seeded)) \<noteq> lastScrapedTweets seeded"
    by (simp add: eval_defs seeded_def idle_def sorted3_def format_tweet_of)
  have h: "map_has ''alice'' (lastScrapedTweets seeded)"
    "map_get ''alice'' (lastScrapedTweets seeded) = Some ''5''" "truthy (Some ''5'')"
    by (simp_all add: seeded_def map_has_def map_get_def truthy_def)
  have h': "map_has ''alice'' (lastScrapedTweets rising)"
    "map_get ''alice'' (lastScrapedTweets rising) = Some ''5''"
    by (simp_all add: rising_def map_has_def map_get_def)
  have g: "map_get ''alice'' [(''alice'', Some ''9'')] = Some ''9''"
    "map_get ''alice'' [(''alice'', Some ''7'')] = Some ''7''"
    by (simp_all add: map_get_def)
  have u: "user_tweets seeded ''alice'' = Some sorted3" and n: "newest_first sorted3"
    and m: "Some (tweet_of (Some ''7'')) \<in> set sorted3" "Some (tweet_of (Some ''3'')) \<in> set sorted3"
    by (simp_all add: seeded_def idle_def sorted3_def newest_first_def present_def ids_def)
  note r = watermark_monotone [of "''alice''" seeded host0 "''alice''"]
  note r' = watermark_monotone [of "''alice''" rising host0 "''alice''"]
  from r h have 1: "map_has ''alice'' (lastScrapedTweets (snd (scrapeData host0 seeded)))"
    by blast
  from r' h'(1) have "\<not> js_lt (map_get ''alice'' (lastScrapedTweets (snd (scrapeData host0 rising))))
      (map_get ''alice'' (lastScrapedTweets rising))"
    by blast
  then have 2: "\<not> js_lt (Some ''7'') (Some ''5'')"
    unfolding e' g h'(2) .
  from r h(1) have "\<not> js_lt (map_get ''alice'' (lastScrapedTweets (snd (scrapeData host0 seeded))))
      (map_get ''alice'' (lastScrapedTweets seeded))"
    by blast
  then have 3: "\<not> js_lt (Some ''9'') (Some ''5'')"
    unfolding e g h(2) .
  from r h have "map_get ''alice'' (lastScrapedTweets (snd (scrapeData host0 seeded))) =
      map_get ''alice'' (lastScrapedTweets seeded) \<or>
      js_gt (map_get ''alice'' (lastScrapedTweets (snd (scrapeData host0 seeded))))
        (map_get ''alice'' (lastScrapedTweets seeded))"
    by simp
  then have 4: "js_gt (Some ''9'') (Some ''5'')"
    unfolding e g h(2) by simp
  from r b obtain ts t rest where x: "user_tweets seeded ''alice'' = Some ts"
    "newTweets (map_get ''alice'' (lastScrapedTweets seeded)) ts = Inr (Some t # rest)"
    "fst (scrape_account host0 ''alice'' seeded) = Inr ()"
    "lastScrapedTweets (snd (scrape_account host0 ''alice'' seeded)) =
       map_set ''alice'' (tw_id t) (lastScrapedTweets seeded)"
    "newest_first ts \<longrightarrow> (\<forall>x. Some x \<in> set ts \<longrightarrow> the (tw_id x) \<le> the (tw_id t))"
    by blast
  from x(1) u have ts: "ts = sorted3" by simp
  from x(5) n m have 5: "the (tw_id (tweet_of (Some ''7''))) \<le> the (tw_id t)"
    "the (tw_id (tweet_of (Some ''3''))) \<le> the (tw_id t)"
    unfolding ts by blast+
  have 6: "\<exists>t rest. newTweets (Some ''5'') sorted3 = Inr (Some t # rest) \<and>
          fst (scrape_account host0 ''alice'' seeded) = Inr () \<and>
          lastScrapedTweets (snd (scrape_account host0 ''alice'' seeded)) =
            map_set ''alice'' (tw_id t) (lastScrapedTweets seeded) \<and>
          the (tw_id (tweet_of (Some ''7''))) \<le> the (tw_id t) \<and>
          the (tw_id (tweet_of (Some ''3''))) \<le> the (tw_id t)"
    using x(2,3,4) 5 unfolding ts h(2) by blast
  have 7: "map_get ''alice'' (lastScrapedTweets (snd (scrapeData host0 seeded))) = Some ''9''"
    "map_get ''alice'' (lastScrapedTweets (snd (scrapeData host0 rising))) = Some ''7''"
    unfolding e e' g by simp_all
  show ?thesis
    by (intro conjI h 7 1 3 4 u n 6 h' 2)
qed

subsection \<open>Advancing the watermark\<close>

lemma lookup_removed [simp]: "lookup i (filter (\<lambda>r. k_id r \<noteq> i) st) = []"
  by (induction st) (simp_all add: lookup_def)

lemma storeKnowledge_persists:
  assumes "faults w = {}"
  shows "lookup i (ragKnowledge (snd (storeKnowledge i c w))) \<noteq> [] \<and>
     k_text (hd (lookup i (ragKnowledge (snd (storeKnowledge i c w))))) = c"
proof (cases "lookup i (ragKnowledge w) = []")
  case True
  with assms show ?thesis
    by (simp add: store_defs fails_def) (simp add: lookup_def)
next
  case False
  with assms show ?thesis
    by (simp add: store_defs fails_def) (simp add: lookup_def)
qed

lemma saveState_persists:
  assumes "faults w = {}"
  shows "lookup stateId (ragKnowledge (saveState H w)) \<noteq> [] \<and>
     k_text (hd (lookup stateId (ragKnowledge (saveState H w)))) =
       stringify_state H (lastScrapedTweets (saveState H w)) (Date_now w)"
  using storeKnowledge_persists[OF assms, of stateId] by (simp add: saveState_def)

lemma scrape_account_advance:
  assumes ok: "fst (scrape_account H u w) = Inr ()"
    and ts: "user_tweets w u = Some ts"
    and new: "newTweets (map_get u (lastScrapedTweets w)) ts = Inr new" "new \<noteq> []"
  shows "\<exists>t rest. new = Some t # rest \<and>
      snd (scrape_account H u w) = saveState H (advanced H u new w) \<and>
      lastScrapedTweets (snd (scrape_account H u w)) = map_set u (tw_id t) (lastScrapedTweets w)"
proof -
  have t: "user_tweets (after_upsert H u p w) = user_tweets w" for p
    using same_world_fields(6)[OF after_upsert_same] .
  have ne: "ts \<noteq> []"
    using new by (auto simp: newTweets_def split: if_splits)
  from ok obtain p where p: "user_profile w u = Some p"
    by (auto simp: scrape_account_unfold getUserProfile_fst split: if_splits option.splits)
  from ok p ts ne new have a:
    "scrape_account H u w = advance H u new (store_tweets H new (after_fetch H u p w))"
    by (auto simp: scrape_account_unfold getUserProfile_fst getUserTweets_fst t
        split: if_splits sum.splits)
  with ok obtain x rest where x: "new = Some x # rest"
    using new(2) by (cases new; cases "hd new") (auto simp: advance_def)
  show ?thesis
    using a x p by (simp add: advance_def advanced_def del: store_tweets.simps)
qed


text \<open>
  C4, as amended. When the block of an account ends without an exception and its new
  tweets are not empty, the first of them is present, the watermark of the account is
  its identifier, and the final state of the block is the state saved straight after
  the assignment, which itself follows the loop over all the new tweets, whatever
  became of each of them. So the state is saved before the next account is looked at.
  When no call fails, the store then holds the state record with the table as it is
  now.
\<close>

theorem advance_after_loop:
  assumes "fst (scrape_account H u w) = Inr ()"
    and "user_tweets w u = Some ts"
    and "newTweets (map_get u (lastScrapedTweets w)) ts = Inr new"
    and "new \<noteq> []"
  shows "(\<exists>t rest. new = Some t # rest \<and>
            map_get u (lastScrapedTweets (snd (scrape_account H u w))) = tw_id t)
    \<and> map_has u (lastScrapedTweets (snd (scrape_account H u w)))
    \<and> snd (scrape_account H u w) = saveState H (advanced H u new w)
    \<and> (faults w = {} \<longrightarrow>
          lookup stateId (ragKnowledge (snd (scrape_account H u w))) \<noteq> [] \<and>
          k_text (hd (lookup stateId (ragKnowledge (snd (scrape_account H u w))))) =
            stringify_state H (lastScrapedTweets (snd (scrape_account H u w)))
              (Date_now (advanced H u new w)))"
proof -
  from scrape_account_advance[OF assms] obtain t rest where n: "new = Some t # rest"
    and s: "snd (scrape_account H u w) = saveState H (advanced H u new w)"
    and l: "lastScrapedTweets (snd (scrape_account H u w)) =
        map_set u (tw_id t) (lastScrapedTweets w)"
    by blast
  have f: "faults (advanced H u new w) = faults w"
    using same_world_fields(7)[OF same_world_trans[OF after_fetch_same store_tweets_same]]
    by (simp add: advanced_def)
  have "faults w = {} \<Longrightarrow>
      lookup stateId (ragKnowledge (saveState H (advanced H u new w))) \<noteq> [] \<and>
      k_text (hd (lookup stateId (ragKnowledge (saveState H (advanced H u new w))))) =
        stringify_state H (lastScrapedTweets (saveState H (advanced H u new w)))
          (Date_now (advanced H u new w))"
    using saveState_persists[of "advanced H u new w" H] f by simp
  with n s l show ?thesis
    by (simp add: map_get_map_set map_has_map_set del: saveState_table)
qed


lemmas host_defs = host0_def show_entry_def show_int_def decimal.simps

text \<open>
  C4 as stated fails: the create of the newest tweet fails, the tweet is not in the
  store, and the watermark is advanced to its identifier and saved all the same.
\<close>

theorem advance_after_loop_counterexample:
  "5 \<in> faults faulty
   \<and> trace (snd (scrapeData host0 faulty)) ! 5 =
       CreateKnowledge ''tweet-10''
         (tweet_body host0 (tweet_of (Some ''10'')) ''1000'' @ nl @ ''Links: https://a.example'')
   \<and> lookup ''tweet-10'' (ragKnowledge (snd (scrapeData host0 faulty))) = []
   \<and> lastScrapedTweets (snd (scrapeData host0 faulty)) = [(''alice'', Some ''10'')]
   \<and> map k_text (lookup stateId (ragKnowledge (snd (scrapeData host0 faulty)))) =
       [''alice=10@1008'']"
  by (simp add: eval_defs faulty_def idle_def two_def format_tweet_of)
    (simp add: host_defs)


theorem advance_after_loop_witness:
  "fst (scrape_account host0 ''alice'' (idle two)) = Inr ()
   \<and> user_tweets (idle two) ''alice'' = Some two
   \<and> newTweets (map_get ''alice'' (lastScrapedTweets (idle two))) two = Inr two
   \<and> two \<noteq> [] \<and> faults (idle two) = {}
   \<and> map_get ''alice'' (lastScrapedTweets (snd (scrape_account host0 ''alice'' (idle two)))) =
       Some ''10''
   \<and> snd (scrape_account host0 ''alice'' (idle two)) =
       saveState host0 (advanced host0 ''alice'' two (idle two))
   \<and> k_text (hd (lookup stateId (ragKnowledge (snd (scrape_account host0 ''alice'' (idle two)))))) =
       stringify_state host0 (lastScrapedTweets (snd (scrape_account host0 ''alice'' (idle two))))
         (Date_now (advanced host0 ''alice'' two (idle two)))"
proof -
  have a: "fst (scrape_account host0 ''alice'' (idle two)) = Inr ()"
    by (simp add: eval_defs idle_def two_def format_tweet_of)
  have b: "user_tweets (idle two) ''alice'' = Some two"
    and c: "newTweets (map_get ''alice'' (lastScrapedTweets (idle two))) two = Inr two"
    and d: "two \<noteq> []" and e: "faults (idle two) = {}"
    by (simp_all add: idle_def newTweets_def map_get_def truthy_def two_def)
  from advance_after_loop [OF a b c d] a b c d e show ?thesis
    by (auto simp: two_def)
qed

text \<open>
  C10, as amended. Without a watermark, when the first fetched item is there but has no
  identifier (or an empty one), the loop passes over it without a call to the store,
  and a block that ends without an exception has set the entry of the account to that
  missing identifier and saved the state.
\<close>

theorem advance_past_nameless:
  assumes "fst (scrape_account H u w) = Inr ()"
    and "user_tweets w u = Some (Some t # rest)"
    and "\<not> truthy (map_get u (lastScrapedTweets w))"
    and "\<not> truthy (tw_id t)"
  shows "(\<forall>v. store_tweets H (Some t # rest) v = store_tweets H rest v)
    \<and> map_has u (lastScrapedTweets (snd (scrape_account H u w)))
    \<and> map_get u (lastScrapedTweets (snd (scrape_account H u w))) = tw_id t
    \<and> snd (scrape_account H u w) = saveState H (advanced H u (Some t # rest) w)
    \<and> (faults w = {} \<longrightarrow>
          lookup stateId (ragKnowledge (snd (scrape_account H u w))) \<noteq> [] \<and>
          k_text (hd (lookup stateId (ragKnowledge (snd (scrape_account H u w))))) =
            stringify_state H (lastScrapedTweets (snd (scrape_account H u w)))
              (Date_now (advanced H u (Some t # rest) w)))"
proof -
  let ?new = "Some t # rest"
  have n: "newTweets (map_get u (lastScrapedTweets w)) ?new = Inr ?new"
    using assms(3) by (simp add: newTweets_def)
  from scrape_account_advance[OF assms(1,2) n]
  have s: "snd (scrape_account H u w) = saveState H (advanced H u ?new w)"
    and l: "lastScrapedTweets (snd (scrape_account H u w)) =
        map_set u (tw_id t) (lastScrapedTweets w)"
    by auto
  have k: "store_tweets H (Some t # rest) v = store_tweets H rest v" for v
    using assms(4) by (simp add: truthy_def split: option.splits)
  have f: "faults (advanced H u ?new w) = faults w"
    using same_world_fields(7)[OF same_world_trans[OF after_fetch_same store_tweets_same]]
    by (simp add: advanced_def del: store_tweets.simps)
  have "faults w = {} \<Longrightarrow>
      lookup stateId (ragKnowledge (saveState H (advanced H u ?new w))) \<noteq> [] \<and>
      k_text (hd (lookup stateId (ragKnowledge (saveState H (advanced H u ?new w))))) =
        stringify_state H (lastScrapedTweets (saveState H (advanced H u ?new w)))
          (Date_now (advanced H u ?new w))"
    using saveState_persists[of "advanced H u ?new w" H] f by simp
  with s l k show ?thesis
    by (simp add: map_get_map_set map_has_map_set del: saveState_table store_tweets.simps)
qed

text \<open>
  C10 as stated fails for an item that is itself missing: line 240 reads \<^verbatim>\<open>.id\<close> of
  \<^verbatim>\<open>null\<close>, the block ends in a TypeError, no entry is set and no state is saved.
\<close>

theorem advance_past_nameless_counterexample:
  "user_tweets headless ''alice'' = Some [None, Some (tweet_of (Some ''9''))]
   \<and> lastScrapedTweets headless = []
   \<and> fst (scrape_account host0 ''alice'' headless) = Inl TypeError
   \<and> lastScrapedTweets (snd (scrapeData host0 headless)) = []
   \<and> lookup stateId (ragKnowledge (snd (scrapeData host0 headless))) = []"
  by (simp add: eval_defs headless_def idle_def format_tweet_of)

theorem advance_past_nameless_witness:
  "fst (scrape_account host0 ''alice'' nameless) = Inr ()
   \<and> user_tweets nameless ''alice'' = Some [Some (tweet_of None), Some (tweet_of (Some ''9''))]
   \<and> \<not> truthy (map_get ''alice'' (lastScrapedTweets nameless))
   \<and> \<not> truthy (tw_id (tweet_of None)) \<and> faults nameless = {}
   \<and> map_has ''alice'' (lastScrapedTweets (snd (scrape_account host0 ''alice'' nameless)))
   \<and> map_get ''alice'' (lastScrapedTweets (snd (scrape_account host0 ''alice'' nameless))) = None
   \<and> lookup stateId (ragKnowledge (snd (scrape_account host0 ''alice'' nameless))) \<noteq> []"
proof -
  have a: "fst (scrape_account host0 ''alice'' nameless) = Inr ()"
    by (simp add: eval_defs nameless_def idle_def format_tweet_of)
  have b: "user_tweets nameless ''alice'' = Some [Some (tweet_of None), Some (tweet_of (Some ''9''))]"
    and c: "\<not> truthy (map_get ''alice'' (lastScrapedTweets nameless))"
    and d: "\<not> truthy (tw_id (tweet_of None))" and e: "faults nameless = {}"
    by (simp_all add: nameless_def idle_def map_get_def truthy_def)
  note r = advance_past_nameless [OF a b c d]
  from r have 1: "map_has ''alice'' (lastScrapedTweets (snd (scrape_account host0 ''alice'' nameless)))"
    by blast
  from r have "map_get ''alice'' (lastScrapedTweets (snd (scrape_account host0 ''alice'' nameless))) =
      tw_id (tweet_of None)"
    by blast
  then have 2: "map_get ''alice'' (lastScrapedTweets (snd (scrape_account host0 ''alice'' nameless))) = None"
    by simp
  from r e have 3: "lookup stateId (ragKnowledge (snd (scrape_account host0 ''alice'' nameless))) \<noteq> []"
    by blast
  show ?thesis
    by (intro conjI a b c d e 1 2 3)
qed

subsection \<open>Containment of failures\<close>

lemma fetched_append [simp]: "fetched (xs @ ys) = fetched xs @ fetched ys"
  by (induction xs rule: fetched.induct) simp_all

lemma storeKnowledge_fetched [simp]:
  "fetched (trace (snd (storeKnowledge i c w))) = fetched (trace w)"
  by (simp add: store_defs)

lemma store_tweets_fetched [simp]: "fetched (trace (store_tweets H ts w)) = fetched (trace w)"
  by (induction H ts w rule: store_tweets.induct) (simp_all split: option.splits sum.splits)

lemma saveState_fetched [simp]: "fetched (trace (saveState H w)) = fetched (trace w)"
  by (simp add: saveState_def)

lemma advance_fetched [simp]: "fetched (trace (snd (advance H u new w))) = fetched (trace w)"
  by (simp add: advance_def split: list.splits option.splits)

lemma getUserTweets_fetched [simp]:
  "fetched (trace (snd (getUserTweets u w))) = fetched (trace w)"
  by (simp add: getUserTweets_def called_def)

lemma getUserProfile_fetched [simp]:
  "fetched (trace (snd (getUserProfile u w))) = fetched (trace w) @ [u]"
  by (simp add: getUserProfile_def called_def)

lemma scrape_account_fetched [simp]:
  "fetched (trace (snd (scrape_account H u w))) = fetched (trace w) @ [u]"
  by (simp add: scrape_account_unfold after_fetch_def after_upsert_def
      split: sum.splits option.splits)

lemma scrape_loop_Cons:
  "scrape_loop H (u # us) w = scrape_loop H us (snd (scrape_account H u w))"
  by (cases "scrape_account H u w") (auto split: sum.splits)

lemma scrape_loop_returns: "fst (scrape_loop H us w) = Inr ()"
  by (induction us arbitrary: w) (simp_all add: scrape_loop_Cons del: scrape_loop.simps(2))

lemma scrape_loop_fetched:
  "fetched (trace (snd (scrape_loop H us w))) = fetched (trace w) @ us"
  by (induction us arbitrary: w) (simp_all add: scrape_loop_Cons del: scrape_loop.simps(2))

lemma start_throws:
  "fst (start H w) = Inl e \<longleftrightarrow> \<not> isRunning w \<and> length (trace w) \<in> faults w \<and> e = AuthError"
  by (auto simp: start_def client_init_def fails_def called_def Let_def)

text \<open>
  C6. Whatever calls fail and whatever the client returns, \<^verbatim>\<open>scrapeData\<close> returns normally
  and the profile of every configured account is asked for, in order: the loop goes
  on with the next account from the state in which the block of the last one ended,
  however it ended. \<^verbatim>\<open>start\<close> throws exactly when it was not running and the
  initialisation of the client, its first call, fails.
\<close>

theorem failures_contained:
  "fst (scrapeData H w) = Inr ()
   \<and> fetched (trace (snd (scrapeData H w))) = fetched (trace w) @ targetAccounts w
   \<and> scrape_loop H (u # us) w = scrape_loop H us (snd (scrape_account H u w))
   \<and> (fst (start H w) = Inl e \<longleftrightarrow>
        \<not> isRunning w \<and> length (trace w) \<in> faults w \<and> e = AuthError)"
  by (simp add: scrapeData_def scrape_loop_returns scrape_loop_fetched scrape_loop_Cons
      start_throws del: scrape_loop.simps(2))

theorem failures_contained_witness:
  "fst (scrape_account host0 ''bob'' offline) = Inl ClientError
   \<and> fst (scrapeData host0 offline) = Inr ()
   \<and> fetched (trace (snd (scrapeData host0 offline))) = [''bob'', ''alice'']
   \<and> lastScrapedTweets (snd (scrapeData host0 offline)) = [(''alice'', Some ''10'')]
   \<and> fst (start host0 offline) = Inl AuthError"
proof -
  have a: "fst (scrape_account host0 ''bob'' offline) = Inl ClientError"
    by (simp add: eval_defs offline_def idle_def)
  have b: "lastScrapedTweets (snd (scrapeData host0 offline)) = [(''alice'', Some ''10'')]"
    by (simp add: eval_defs offline_def idle_def two_def format_tweet_of)
  have c: "\<not> isRunning offline \<and> length (trace offline) \<in> faults offline"
    "fetched (trace offline) = []" "targetAccounts offline = [''bob'', ''alice'']"
    by (simp_all add: offline_def idle_def)
  from failures_contained [of host0 offline _ _ AuthError] a b c show ?thesis
    by simp
qed

subsection \<open>Seeding the watermarks at start\<close>

lemma seed_account_eq:
  "seed_account H u w =
     (called (GetKnowledge (u @ ''-tweets'')) w)
       \<lparr>lastScrapedTweets :=
          (if fails w then lastScrapedTweets w
           else case newest_stored H (ragKnowledge w) u of
                  None \<Rightarrow> lastScrapedTweets w
                | Some v \<Rightarrow> map_set u v (lastScrapedTweets w))\<rparr>"
  by (cases "lookup (u @ ''-tweets'') (ragKnowledge w)")
    (auto simp: seed_account_def getKnowledge_def stringToUuid_def called_def newest_stored_def
      split: sum.splits list.splits option.splits)

lemma seed_account_keeps [simp]:
  "faults (seed_account H u w) = faults w"
  "ragKnowledge (seed_account H u w) = ragKnowledge w"
  "trace (seed_account H u w) = trace w @ [GetKnowledge (u @ ''-tweets'')]"
  by (simp_all add: seed_account_eq called_def)

lemma seed_account_other:
  "k \<noteq> u \<Longrightarrow> map_of (lastScrapedTweets (seed_account H u w)) k = map_of (lastScrapedTweets w) k"
  by (simp add: seed_account_eq map_of_map_set split: option.splits)

lemma seed_account_entry:
  "\<not> map_has u (lastScrapedTweets w) \<Longrightarrow>
   map_of (lastScrapedTweets (seed_account H u w)) u =
     (if length (trace w) \<in> faults w then None else newest_stored H (ragKnowledge w) u)"
  by (auto simp: seed_account_eq map_of_map_set fails_def map_has_dom split: option.splits)

lemma initialize_loop_keeps [simp]:
  "faults (initialize_loop H us w) = faults w"
  "ragKnowledge (initialize_loop H us w) = ragKnowledge w"
  by (induction us arbitrary: w) simp_all

lemma initialize_loop_trace: "\<exists>es. trace (initialize_loop H us w) = trace w @ es"
proof (induction us arbitrary: w)
  case Nil
  then show ?case by simp
next
  case (Cons u us)
  show ?case
  proof (cases "map_has u (lastScrapedTweets w)")
    case True
    with Cons[of w] show ?thesis by simp
  next
    case False
    from Cons[of "seed_account H u w"] obtain es where
      "trace (initialize_loop H us (seed_account H u w)) =
         trace w @ [GetKnowledge (u @ ''-tweets'')] @ es"
      by auto
    with False show ?thesis by simp
  qed
qed

lemma initialize_loop_nth:
  "i < length (trace w) \<Longrightarrow> trace (initialize_loop H us w) ! i = trace w ! i"
  using initialize_loop_trace[of H us w] by (auto simp: nth_append)

lemma initialize_loop_length: "length (trace w) \<le> length (trace (initialize_loop H us w))"
  using initialize_loop_trace[of H us w] by auto

lemma initialize_loop_set:
  "map_has k (lastScrapedTweets w) \<Longrightarrow>
   map_of (lastScrapedTweets (initialize_loop H us w)) k = map_of (lastScrapedTweets w) k"
proof (induction us arbitrary: w)
  case Nil
  then show ?case by simp
next
  case (Cons u us)
  show ?case
  proof (cases "map_has u (lastScrapedTweets w)")
    case True
    with Cons show ?thesis by simp
  next
    case False
    with Cons.prems have ne: "k \<noteq> u" by auto
    then have e: "map_of (lastScrapedTweets (seed_account H u w)) k = map_of (lastScrapedTweets w) k"
      by (rule seed_account_other)
    with Cons.prems have "map_has k (lastScrapedTweets (seed_account H u w))"
      by (simp add: map_has_dom dom_def)
    from Cons.IH[OF this] e False show ?thesis by simp
  qed
qed

lemma initialize_loop_other:
  "k \<notin> set us \<Longrightarrow>
   map_of (lastScrapedTweets (initialize_loop H us w)) k = map_of (lastScrapedTweets w) k"
  by (induction us arbitrary: w) (simp_all add: seed_account_other)

lemma initialize_loop_seed:
  "k \<in> set us \<Longrightarrow> \<not> map_has k (lastScrapedTweets w) \<Longrightarrow>
   \<exists>i. length (trace w) \<le> i \<and> i < length (trace (initialize_loop H us w)) \<and>
       trace (initialize_loop H us w) ! i = GetKnowledge (k @ ''-tweets'') \<and>
       map_of (lastScrapedTweets (initialize_loop H us w)) k =
         (if i \<in> faults w then None else newest_stored H (ragKnowledge w) k)"
proof (induction us arbitrary: w)
  case Nil
  then show ?case by simp
next
  case (Cons u us)
  let ?w1 = "seed_account H u w"
  let ?P = "\<lambda>w' i. length (trace w) \<le> i \<and> i < length (trace w') \<and>
       trace w' ! i = GetKnowledge (k @ ''-tweets'') \<and>
       map_of (lastScrapedTweets w') k =
         (if i \<in> faults w then None else newest_stored H (ragKnowledge w) k)"
  show ?case
  proof (cases "k = u")
    case True
    with Cons.prems have l: "initialize_loop H (u # us) w = initialize_loop H us ?w1"
      by simp
    have e1: "map_of (lastScrapedTweets ?w1) k =
        (if length (trace w) \<in> faults w then None else newest_stored H (ragKnowledge w) k)"
      using seed_account_entry[of k w H] Cons.prems True by simp
    have here: "length (trace w) < length (trace (initialize_loop H us ?w1))"
      "trace (initialize_loop H us ?w1) ! length (trace w) = GetKnowledge (k @ ''-tweets'')"
      using initialize_loop_length[of ?w1 H us] initialize_loop_nth[of "length (trace w)" ?w1 H us]
        True by simp_all
    show ?thesis
    proof (cases "map_has k (lastScrapedTweets ?w1)")
      case seeded: True
      from initialize_loop_set[OF seeded, of H us] e1 here
      have "?P (initialize_loop H us ?w1) (length (trace w))" by simp
      then show ?thesis unfolding l by blast
    next
      case unseeded: False
      show ?thesis
      proof (cases "k \<in> set us")
        case True
        from Cons.IH[OF True unseeded] obtain i where
          "length (trace ?w1) \<le> i" "i < length (trace (initialize_loop H us ?w1))"
          "trace (initialize_loop H us ?w1) ! i = GetKnowledge (k @ ''-tweets'')"
          "map_of (lastScrapedTweets (initialize_loop H us ?w1)) k =
            (if i \<in> faults ?w1 then None else newest_stored H (ragKnowledge ?w1) k)"
          by blast
        then have "?P (initialize_loop H us ?w1) i" by simp
        then show ?thesis unfolding l by blast
      next
        case False
        from unseeded have "map_of (lastScrapedTweets ?w1) k = None"
          by (simp add: map_has_dom dom_def)
        with initialize_loop_other[OF False, of H ?w1] e1 here
        have "?P (initialize_loop H us ?w1) (length (trace w))" by simp
        then show ?thesis unfolding l by blast
      qed
    qed
  next
    case False
    with Cons.prems have k: "k \<in> set us" by simp
    show ?thesis
    proof (cases "map_has u (lastScrapedTweets w)")
      case True
      with Cons.IH[OF k Cons.prems(2)] show ?thesis by simp
    next
      case nu: False
      then have l: "initialize_loop H (u # us) w = initialize_loop H us ?w1" by simp
      have "\<not> map_has k (lastScrapedTweets ?w1)"
        using seed_account_other[OF False, of H w] Cons.prems(2)
        by (simp add: map_has_dom dom_def)
      from Cons.IH[OF k this] obtain i where
        "length (trace ?w1) \<le> i" "i < length (trace (initialize_loop H us ?w1))"
        "trace (initialize_loop H us ?w1) ! i = GetKnowledge (k @ ''-tweets'')"
        "map_of (lastScrapedTweets (initialize_loop H us ?w1)) k =
          (if i \<in> faults ?w1 then None else newest_stored H (ragKnowledge ?w1) k)"
        by blast
      then have "?P (initialize_loop H us ?w1) i" by simp
      then show ?thesis unfolding l by blast
    qed
  qed
qed

text \<open>
  C8. \<^verbatim>\<open>initializeLastScrapedTweets\<close>, which \<^verbatim>\<open>start\<close> runs on the state loaded, leaves every
  entry of the table that is set as it is. For a configured account without an entry it
  asks the store for the item collection of that account, and the entry afterwards is
  decided by that one call: when it fails there is none, otherwise it is the identifier
  of the first stored item, if the collection is there, can be read and is not empty.
  What fails for one account decides nothing for another. The store is only read.
  The table with which \<^verbatim>\<open>start\<close> returns is the one seeded so from the state loaded.
\<close>

theorem seeding:
  "(map_has k (lastScrapedTweets w) \<longrightarrow>
      map_of (lastScrapedTweets (initializeLastScrapedTweets H w)) k =
        map_of (lastScrapedTweets w) k)
   \<and> (k \<in> set (targetAccounts w) \<and> \<not> map_has k (lastScrapedTweets w) \<longrightarrow>
        (\<exists>i. length (trace w) \<le> i \<and>
             i < length (trace (initializeLastScrapedTweets H w)) \<and>
             trace (initializeLastScrapedTweets H w) ! i = GetKnowledge (k @ ''-tweets'') \<and>
             map_of (lastScrapedTweets (initializeLastScrapedTweets H w)) k =
               (if i \<in> faults w then None else newest_stored H (ragKnowledge w) k)))
   \<and> ragKnowledge (initializeLastScrapedTweets H w) = ragKnowledge w
   \<and> (\<not> isRunning w \<and> \<not> fails w \<longrightarrow>
        lastScrapedTweets (snd (start H w)) =
          lastScrapedTweets (initializeLastScrapedTweets H
            (loadState H (called ClientInit (w\<lparr>isRunning := True\<rparr>)))))"
  using initialize_loop_set[of k w H "targetAccounts w"]
    initialize_loop_seed[of k "targetAccounts w" w H]
  by (simp add: initializeLastScrapedTweets_def start_def client_init_def fails_def called_def
      Let_def)


theorem seeding_witness:
  "map_has ''carol'' (lastScrapedTweets restarted)
   \<and> map_of (lastScrapedTweets (initializeLastScrapedTweets host0 restarted)) ''carol'' =
       Some (Some ''7'')
   \<and> ''alice'' \<in> set (targetAccounts restarted)
   \<and> \<not> map_has ''alice'' (lastScrapedTweets restarted)
   \<and> newest_stored host0 (ragKnowledge restarted) ''alice'' = Some (Some ''42'')
   \<and> (\<exists>i. i < length (trace (initializeLastScrapedTweets host0 restarted)) \<and>
          trace (initializeLastScrapedTweets host0 restarted) ! i = GetKnowledge ''alice-tweets'' \<and>
          map_of (lastScrapedTweets (initializeLastScrapedTweets host0 restarted)) ''alice'' =
            (if i \<in> faults restarted then None else Some (Some ''42'')))
   \<and> lastScrapedTweets (initializeLastScrapedTweets host0 restarted) =
       [(''carol'', Some ''7''), (''alice'', Some ''42'')]"
proof -
  have a: "map_has ''carol'' (lastScrapedTweets restarted)"
    and b: "''alice'' \<in> set (targetAccounts restarted)"
    and c: "\<not> map_has ''alice'' (lastScrapedTweets restarted)"
    and d: "map_of (lastScrapedTweets restarted) ''carol'' = Some (Some ''7'')"
    by (simp_all add: restarted_def idle_def map_has_def)
  have n: "newest_stored host0 (ragKnowledge restarted) ''alice'' = Some (Some ''42'')"
    by (simp add: newest_stored_def restarted_def idle_def lookup_def host0_def)
  have e: "lastScrapedTweets (initializeLastScrapedTweets host0 restarted) =
       [(''carol'', Some ''7''), (''alice'', Some ''42'')]"
    by (simp add: initializeLastScrapedTweets_def seed_account_eq n fails_def called_def
        restarted_def idle_def map_has_def)
      (simp add: newest_stored_def lookup_def host0_def)
  from seeding [of "''carol''" restarted host0] a d
  have 1: "map_of (lastScrapedTweets (initializeLastScrapedTweets host0 restarted)) ''carol'' =
       Some (Some ''7'')"
    by simp
  from seeding [of "''alice''" restarted host0] b c
  have "\<exists>i. length (trace restarted) \<le> i \<and>
      i < length (trace (initializeLastScrapedTweets host0 restarted)) \<and>
      trace (initializeLastScrapedTweets host0 restarted) ! i = GetKnowledge (''alice'' @ ''-tweets'') \<and>
      map_of (lastScrapedTweets (initializeLastScrapedTweets host0 restarted)) ''alice'' =
        (if i \<in> faults restarted then None
         else newest_stored host0 (ragKnowledge restarted) ''alice'')"
    by blast
  then obtain i where i: "i < length (trace (initializeLastScrapedTweets host0 restarted))"
    "trace (initializeLastScrapedTweets host0 restarted) ! i = GetKnowledge (''alice'' @ ''-tweets'')"
    "map_of (lastScrapedTweets (initializeLastScrapedTweets host0 restarted)) ''alice'' =
        (if i \<in> faults restarted then None
         else newest_stored host0 (ragKnowledge restarted) ''alice'')"
    by blast
  have 2: "\<exists>i. i < length (trace (initializeLastScrapedTweets host0 restarted)) \<and>
          trace (initializeLastScrapedTweets host0 restarted) ! i = GetKnowledge ''alice-tweets'' \<and>
          map_of (lastScrapedTweets (initializeLastScrapedTweets host0 restarted)) ''alice'' =
            (if i \<in> faults restarted then None else Some (Some ''42''))"
    using i unfolding n by (intro exI[of _ i]) simp
  show ?thesis
    by (intro conjI a b c n e 1 2)
qed

subsection \<open>A second pass\<close>

lemma written_append [simp]: "written (xs @ ys) = written xs @ written ys"
  by (induction xs rule: written.induct) simp_all

text \<open>Every method only appends to the trace.\<close>

lemma storeKnowledge_trace:
  "\<exists>es. trace (snd (storeKnowledge i c w)) = trace w @ es \<and> set (written es) \<subseteq> {i} \<and>
     ((case lookup i (ragKnowledge w) of [] \<Rightarrow> False | r # _ \<Rightarrow> k_text r = c) \<longrightarrow>
        written es = [] \<and> ragKnowledge (snd (storeKnowledge i c w)) = ragKnowledge w)"
  by (cases "lookup i (ragKnowledge w)") (auto simp: store_defs)

lemma scrape_account_quiet:
  assumes "quiet w u"
  shows "lastScrapedTweets (snd (scrape_account H u w)) = lastScrapedTweets w \<and>
    (\<exists>es. trace (snd (scrape_account H u w)) = trace w @ es \<and>
       set (written es) \<subseteq> {u @ ''-profile''} \<and>
       (current H w u \<longrightarrow>
          written es = [] \<and> ragKnowledge (snd (scrape_account H u w)) = ragKnowledge w))"
proof (cases "fst (getUserProfile u w)")
  case (Inl e)
  then show ?thesis
    by (simp add: scrape_account_unfold) (simp add: getUserProfile_def called_def split: if_splits)
next
  case (Inr po)
  let ?w1 = "snd (getUserProfile u w)"
  have w1: "trace ?w1 = trace w @ [GetUserProfile u]" "ragKnowledge ?w1 = ragKnowledge w"
    by (simp_all add: getUserProfile_def called_def)
  show ?thesis
  proof (cases po)
    case None
    with Inr w1 show ?thesis by (simp add: scrape_account_unfold)
  next
    case (Some p)
    with Inr have p: "user_profile w u = Some p"
      by (simp add: getUserProfile_fst split: if_splits)
    let ?w2 = "after_upsert H u p w"
    from storeKnowledge_trace[of "u @ ''-profile''" "formatProfileForRAG H p" ?w1]
    obtain es where es: "trace ?w2 = trace w @ GetUserProfile u # es"
      "set (written es) \<subseteq> {u @ ''-profile''}"
      "current H w u \<Longrightarrow> written es = [] \<and> ragKnowledge ?w2 = ragKnowledge w"
      by (auto simp: after_upsert_def w1 current_def p)
    let ?w3 = "after_fetch H u p w"
    have w3: "trace ?w3 = trace w @ GetUserProfile u # es @ [GetUserTweets u]"
      "ragKnowledge ?w3 = ragKnowledge ?w2"
      by (simp_all add: after_fetch_def getUserTweets_def called_def es(1))
    have t: "user_tweets ?w2 = user_tweets w"
      using same_world_fields(6)[OF after_upsert_same] .
    have "snd (scrape_account H u w) = ?w2 \<or> snd (scrape_account H u w) = ?w3"
      using assms Inr Some p
      by (auto simp: scrape_account_unfold getUserTweets_fst t quiet_def advance_def
          split: sum.splits option.splits if_splits)
    then show ?thesis
    proof
      assume "snd (scrape_account H u w) = ?w2"
      with es show ?thesis by simp
    next
      assume "snd (scrape_account H u w) = ?w3"
      with es w3 show ?thesis by simp
    qed
  qed
qed


lemma quiet_cong:
  "same_world w w' \<Longrightarrow> lastScrapedTweets w' = lastScrapedTweets w \<Longrightarrow> quiet w' k = quiet w k"
  by (auto simp: quiet_def same_world_def split: option.splits)

lemma current_cong:
  "same_world w w' \<Longrightarrow> ragKnowledge w' = ragKnowledge w \<Longrightarrow> current H w' k = current H w k"
  by (auto simp: current_def same_world_def split: option.splits list.splits)

lemma scrape_loop_quiet:
  "\<forall>u\<in>set us. quiet w u \<Longrightarrow>
   lastScrapedTweets (snd (scrape_loop H us w)) = lastScrapedTweets w \<and>
   (\<exists>es. trace (snd (scrape_loop H us w)) = trace w @ es \<and>
      set (written es) \<subseteq> (\<lambda>u. u @ ''-profile'') ` set us \<and>
      ((\<forall>u\<in>set us. current H w u) \<longrightarrow>
         written es = [] \<and> ragKnowledge (snd (scrape_loop H us w)) = ragKnowledge w))"
proof (induction us arbitrary: w)
  case Nil
  then show ?case by simp
next
  case (Cons u us)
  let ?w1 = "snd (scrape_account H u w)"
  from Cons.prems have "quiet w u" by simp
  from scrape_account_quiet[OF this, of H] obtain es where
    t1: "lastScrapedTweets ?w1 = lastScrapedTweets w"
    and es: "trace ?w1 = trace w @ es" "set (written es) \<subseteq> {u @ ''-profile''}"
      "current H w u \<Longrightarrow> written es = [] \<and> ragKnowledge ?w1 = ragKnowledge w"
    by blast
  have q: "\<forall>k\<in>set us. quiet ?w1 k"
    using Cons.prems quiet_cong[OF scrape_account_same t1] by simp
  from Cons.IH[OF q] obtain fs where
    t2: "lastScrapedTweets (snd (scrape_loop H us ?w1)) = lastScrapedTweets ?w1"
    and fs: "trace (snd (scrape_loop H us ?w1)) = trace ?w1 @ fs"
      "set (written fs) \<subseteq> (\<lambda>u. u @ ''-profile'') ` set us"
      "(\<forall>k\<in>set us. current H ?w1 k) \<Longrightarrow>
         written fs = [] \<and> ragKnowledge (snd (scrape_loop H us ?w1)) = ragKnowledge ?w1"
    by blast
  have c: "written (es @ fs) = [] \<and> ragKnowledge (snd (scrape_loop H us ?w1)) = ragKnowledge w"
    if a: "\<forall>k\<in>set (u # us). current H w k"
  proof -
    from a es(3) have e: "written es = []" "ragKnowledge ?w1 = ragKnowledge w" by simp_all
    with a have "\<forall>k\<in>set us. current H ?w1 k"
      using current_cong[OF scrape_account_same e(2)] by simp
    with fs(3) e show ?thesis by simp
  qed
  have "trace (snd (scrape_loop H us ?w1)) = trace w @ (es @ fs)"
    using es(1) fs(1) by simp
  moreover have "set (written (es @ fs)) \<subseteq> (\<lambda>u. u @ ''-profile'') ` set (u # us)"
    using es(2) fs(2) by auto
  ultimately show ?case
    unfolding scrape_loop_Cons using t1 t2 c by (intro conjI exI[of _ "es @ fs"]) simp_all
qed

lemma newTweets_settles:
  assumes nf: "newest_first ts" and ne: "[] \<notin> set (ids ts)"
    and new: "newTweets W ts = Inr (Some t # rest)"
  shows "truthy (tw_id t) \<and> newTweets (tw_id t) ts = Inr []"
proof -
  from nf have pr: "present ts" and nn: "None \<notin> set ts"
    by (auto simp: newest_first_def present_def)
  have tin: "Some t \<in> set ts"
  proof (cases "truthy W")
    case True
    with new nn have "filter (newer W) ts = Some t # rest"
      by (simp add: newTweets_def filter_newer_filter)
    then have "Some t \<in> set (filter (newer W) ts)" by simp
    then show ?thesis by simp
  next
    case False
    with new show ?thesis by (simp add: newTweets_def)
  qed
  with pr obtain i where i: "tw_id t = Some i"
    using present_elem by blast
  from tin ne i have "i \<noteq> []"
    by (force simp: ids_def)
  with i have tr: "truthy (tw_id t)" by (simp add: truthy_def)
  have "\<not> newer (tw_id t) y" if y: "y \<in> set ts" for y
  proof -
    from y pr obtain x j where x: "y = Some x" "tw_id x = Some j"
      using present_elem by blast
    from newTweets_head_newest[OF nf new, of x] y x i have "j \<le> i" by simp
    with x i show ?thesis by (simp add: newer_def js_gt_def)
  qed
  then have "filter (newer (tw_id t)) ts = []" by (simp add: filter_empty_conv)
  with tr nn show ?thesis by (simp add: newTweets_def filter_newer_filter)
qed


lemma storeKnowledge_ok: "faults w = {} \<Longrightarrow> fst (storeKnowledge i c w) = Inr ()"
  by (simp add: store_defs fails_def)

lemma scrape_account_other:
  "k \<noteq> u \<Longrightarrow>
   map_get k (lastScrapedTweets (snd (scrape_account H u w))) = map_get k (lastScrapedTweets w)"
  using scrape_account_table[of H u w] by (auto simp: map_get_map_set)

lemma scrape_account_settles:
  assumes nofault: "faults w = {}" and ord: "orderly w u"
  shows "quiet (snd (scrape_account H u w)) u"
proof -
  let ?w' = "snd (scrape_account H u w)"
  note sw = same_world_fields[OF scrape_account_same[of w H u]]
  show ?thesis
  proof (cases "user_profile w u")
    case None
    with sw(5) show ?thesis by (simp add: quiet_def)
  next
    case (Some p)
    show ?thesis
    proof (cases "user_tweets w u")
      case None
      with sw(6) show ?thesis by (simp add: quiet_def)
    next
      case ts: (Some ts)
      show ?thesis
      proof (cases "ts = []")
        case True
        with ts sw(6) show ?thesis by (simp add: quiet_def)
      next
        case False
        from ord ts have nf: "newest_first ts" and ne: "[] \<notin> set (ids ts)"
          by (simp_all add: orderly_def)
        from nf have nn: "None \<notin> set ts"
          by (auto simp: newest_first_def present_def)
        let ?W = "map_get u (lastScrapedTweets w)"
        obtain new where new: "newTweets ?W ts = Inr new" "None \<notin> set new"
          using nn by (cases "truthy ?W") (auto simp: newTweets_def filter_newer_filter)
        have f2: "faults (after_upsert H u p w) = {}"
          using same_world_fields(7)[OF after_upsert_same[of w H u p]] nofault by simp
        have t2: "user_tweets (after_upsert H u p w) = user_tweets w"
          using same_world_fields(6)[OF after_upsert_same] .
        have f1: "faults (snd (getUserProfile u w)) = {}"
          using same_world_fields(7)[OF getUserProfile_same[of w u]] nofault by simp
        have run: "scrape_account H u w =
            advance H u new (store_tweets H new (after_fetch H u p w))"
          using Some ts False new(1) nofault f2 t2 storeKnowledge_ok[OF f1]
          by (simp add: scrape_account_unfold getUserProfile_fst getUserTweets_fst fails_def)
        show ?thesis
        proof (cases new)
          case Nil
          with run have "lastScrapedTweets ?w' = lastScrapedTweets w"
            by (simp add: advance_table)
          with Nil new(1) ts sw(5,6) show ?thesis by (simp add: quiet_def)
        next
          case (Cons a rest)
          with new(2) obtain t where a: "a = Some t" by (cases a) auto
          with run Cons have "lastScrapedTweets ?w' = map_set u (tw_id t) (lastScrapedTweets w)"
            by (simp add: advance_table del: store_tweets.simps)
          then have "map_get u (lastScrapedTweets ?w') = tw_id t"
            by (simp add: map_get_map_set)
          moreover from newTweets_settles[OF nf ne] new(1) Cons a
          have "newTweets (tw_id t) ts = Inr []" by simp
          ultimately show ?thesis using ts sw(6) by (simp add: quiet_def)
        qed
      qed
    qed
  qed
qed

lemma scrape_account_keeps_quiet:
  assumes "quiet w k" "k \<noteq> u"
  shows "quiet (snd (scrape_account H u w)) k"
  using assms same_world_fields(5,6)[OF scrape_account_same[of w H u]]
    scrape_account_other[of k u H w]
  by (auto simp: quiet_def split: option.splits)

lemma orderly_cong: "same_world w w' \<Longrightarrow> orderly w' k = orderly w k"
  by (simp add: orderly_def same_world_def)

lemma scrape_loop_settles:
  "faults w = {} \<Longrightarrow> \<forall>u\<in>set us. orderly w u \<Longrightarrow> k \<in> set us \<or> quiet w k \<Longrightarrow>
   quiet (snd (scrape_loop H us w)) k"
proof (induction us arbitrary: w)
  case Nil
  then show ?case by simp
next
  case (Cons u us)
  let ?w1 = "snd (scrape_account H u w)"
  have f: "faults ?w1 = {}"
    using same_world_fields(7)[OF scrape_account_same[of w H u]] Cons.prems(1) by simp
  have o: "\<forall>a\<in>set us. orderly ?w1 a"
    using Cons.prems(2) orderly_cong[OF scrape_account_same[of w H u]] by simp
  have "k \<in> set us \<or> quiet ?w1 k"
  proof (cases "k = u")
    case True
    with scrape_account_settles[OF Cons.prems(1), of u H] Cons.prems(2) show ?thesis by simp
  next
    case False
    with Cons.prems(3) scrape_account_keeps_quiet[of w k u H] show ?thesis by auto
  qed
  from Cons.IH[OF f o this] show ?case by (simp only: scrape_loop_Cons)
qed

lemma scrape_loop_same [simp]: "same_world w (snd (scrape_loop H us w))"
proof (induction us arbitrary: w)
  case Nil
  then show ?case by simp
next
  case (Cons u us)
  from same_world_trans[OF scrape_account_same Cons[of "snd (scrape_account H u w)"]]
  show ?case by (simp only: scrape_loop_Cons)
qed

text \<open>
  C2, as amended. Let no call fail and let every configured account be served a
  sequence that is newest first, in the order of line 220, with identifiers that are
  not empty. Then a second pass, run on the state the first one left and on the same
  upstream data, leaves the watermark table as it is and deletes or creates records
  under profile keys only; when the profile records the first pass left are current,
  it deletes and creates nothing, and the store is the same afterwards.
\<close>

theorem second_pass_idle:
  assumes "faults w = {}" and "\<forall>u\<in>set (targetAccounts w). orderly w u"
  shows "lastScrapedTweets (snd (scrapeData H (snd (scrapeData H w)))) =
      lastScrapedTweets (snd (scrapeData H w))
    \<and> set (written (drop (length (trace (snd (scrapeData H w))))
                   (trace (snd (scrapeData H (snd (scrapeData H w)))))))
        \<subseteq> (\<lambda>u. u @ ''-profile'') ` set (targetAccounts w)
    \<and> ((\<forall>u\<in>set (targetAccounts w). current H (snd (scrapeData H w)) u) \<longrightarrow>
         written (drop (length (trace (snd (scrapeData H w))))
                   (trace (snd (scrapeData H (snd (scrapeData H w)))))) = [] \<and>
         ragKnowledge (snd (scrapeData H (snd (scrapeData H w)))) =
           ragKnowledge (snd (scrapeData H w)))"
proof -
  let ?w1 = "snd (scrapeData H w)" and ?us = "targetAccounts w"
  have w1: "?w1 = snd (scrape_loop H ?us w)"
    by (simp add: scrapeData_def)
  have us: "targetAccounts ?w1 = ?us"
    unfolding w1 using same_world_fields(1)[OF scrape_loop_same] .
  have q: "\<forall>u\<in>set ?us. quiet ?w1 u"
    unfolding w1 using scrape_loop_settles[OF assms, of _ H] by blast
  have w2: "snd (scrapeData H ?w1) = snd (scrape_loop H ?us ?w1)"
    by (simp add: scrapeData_def[of H ?w1] us)
  from scrape_loop_quiet[OF q, of H] obtain es where
    t: "lastScrapedTweets (snd (scrape_loop H ?us ?w1)) = lastScrapedTweets ?w1"
    and es: "trace (snd (scrape_loop H ?us ?w1)) = trace ?w1 @ es"
      "set (written es) \<subseteq> (\<lambda>u. u @ ''-profile'') ` set ?us"
      "(\<forall>u\<in>set ?us. current H ?w1 u) \<Longrightarrow>
         written es = [] \<and> ragKnowledge (snd (scrape_loop H ?us ?w1)) = ragKnowledge ?w1"
    by blast
  have d: "drop (length (trace ?w1)) (trace (snd (scrapeData H ?w1))) = es"
    unfolding w2 es(1) by simp
  show ?thesis
    unfolding d using t es(2,3) by (simp add: w2)
qed


text \<open>
  C2 as stated fails on the identifiers \<open>10\<close> and \<open>9\<close>, served newest first: as strings,
  \<open>9\<close> compares greater than \<open>10\<close>. The first pass leaves the watermark \<open>10\<close>; the second,
  with the same upstream data and no failure, takes \<open>9\<close> for new, moves the watermark to
  \<open>9\<close>, and deletes and creates the state record. It fails as well when the newest
  item has no identifier (the state record is written again in the second pass) and
  when a call of the first pass failed (the second pass stores what the first did
  not).
\<close>

theorem second_pass_idle_counterexample:
  "faults (idle two) = {}
   \<and> user_tweets (snd (scrapeData host0 (idle two))) ''alice'' = user_tweets (idle two) ''alice''
   \<and> user_profile (snd (scrapeData host0 (idle two))) ''alice'' = user_profile (idle two) ''alice''
   \<and> lastScrapedTweets (snd (scrapeData host0 (idle two))) = [(''alice'', Some ''10'')]
   \<and> lastScrapedTweets (snd (scrapeData host0 (snd (scrapeData host0 (idle two))))) =
       [(''alice'', Some ''9'')]
   \<and> written (drop (length (trace (snd (scrapeData host0 (idle two)))))
                (trace (snd (scrapeData host0 (snd (scrapeData host0 (idle two))))))) =
       [''twitter-scraper-state'', ''twitter-scraper-state'']
   \<and> lastScrapedTweets (snd (scrapeData host0 nameless)) = [(''alice'', None)]
   \<and> written (drop (length (trace (snd (scrapeData host0 nameless))))
                (trace (snd (scrapeData host0 (snd (scrapeData host0 nameless)))))) =
       [''twitter-scraper-state'', ''twitter-scraper-state'']
   \<and> lastScrapedTweets (snd (scrapeData host0 flaky)) = []
   \<and> lastScrapedTweets (snd (scrapeData host0 (snd (scrapeData host0 flaky)))) =
       [(''alice'', Some ''9'')]
   \<and> written (drop (length (trace (snd (scrapeData host0 flaky))))
                (trace (snd (scrapeData host0 (snd (scrapeData host0 flaky)))))) =
       [''alice-profile'', ''tweet-9'', ''tweet-7'', ''tweet-3'', ''twitter-scraper-state'']"
  by (simp add: eval_defs idle_def two_def nameless_def flaky_def sorted3_def format_tweet_of)
    (simp add: host_defs)

theorem second_pass_idle_witness:
  "faults (idle sorted3) = {}
   \<and> targetAccounts (idle sorted3) = [''alice'']
   \<and> orderly (idle sorted3) ''alice''
   \<and> current host0 (snd (scrapeData host0 (idle sorted3))) ''alice''
   \<and> lastScrapedTweets (snd (scrapeData host0 (idle sorted3))) = [(''alice'', Some ''9'')]
   \<and> lastScrapedTweets (snd (scrapeData host0 (snd (scrapeData host0 (idle sorted3))))) =
       [(''alice'', Some ''9'')]
   \<and> written (drop (length (trace (snd (scrapeData host0 (idle sorted3)))))
                (trace (snd (scrapeData host0 (snd (scrapeData host0 (idle sorted3))))))) = []
   \<and> ragKnowledge (snd (scrapeData host0 (snd (scrapeData host0 (idle sorted3))))) =
       ragKnowledge (snd (scrapeData host0 (idle sorted3)))"
proof -
  have a: "faults (idle sorted3) = {}"
    by (simp add: idle_def)
  have b: "\<forall>u\<in>set (targetAccounts (idle sorted3)). orderly (idle sorted3) u"
    by (simp add: idle_def orderly_def sorted3_def newest_first_def present_def ids_def)
  have c: "\<forall>u\<in>set (targetAccounts (idle sorted3)).
      current host0 (snd (scrapeData host0 (idle sorted3))) u"
    by (simp add: eval_defs idle_def sorted3_def format_tweet_of current_def)
  have d: "lastScrapedTweets (snd (scrapeData host0 (idle sorted3))) = [(''alice'', Some ''9'')]"
    by (simp add: eval_defs idle_def sorted3_def format_tweet_of)
  note r = second_pass_idle [OF a b, of host0]
  from r d have 1: "lastScrapedTweets (snd (scrapeData host0 (snd (scrapeData host0 (idle sorted3))))) =
       [(''alice'', Some ''9'')]"
    by simp
  from r c have 2: "written (drop (length (trace (snd (scrapeData host0 (idle sorted3)))))
                (trace (snd (scrapeData host0 (snd (scrapeData host0 (idle sorted3))))))) = []"
    and 3: "ragKnowledge (snd (scrapeData host0 (snd (scrapeData host0 (idle sorted3))))) =
       ragKnowledge (snd (scrapeData host0 (idle sorted3)))"
    by blast+
  have t: "targetAccounts (idle sorted3) = [''alice'']"
    by (simp add: idle_def)
  from b c have o: "orderly (idle sorted3) ''alice''"
    and k: "current host0 (snd (scrapeData host0 (idle sorted3))) ''alice''"
    unfolding t by simp_all
  show ?thesis
    by (intro conjI a t o k d 1 2 3)
qed

end
